theory Spec2Isabelle
  imports Complex_Main "HOL-Library.Word"
begin

section \<open>The store\<close>

text \<open>
  The relational store of \<^verbatim>\<open>prisma/schema.prisma\<close>, restricted to the tables and columns
  that the checkout handler and the stock handler read or write. A column of type
  \<^verbatim>\<open>Int\<close> is a signed 32-bit integer: the price and the stock of a menu row are
  32-bit words read as signed integers, and the store refuses to write a value outside
  that range. Identifiers generated by the store for order items and log rows, and all
  timestamps, are left out; the identifier of a new order is an argument of the checkout
  handler. The references between tables are not checked: the handlers write a reference
  only to a row that they have just read.
\<close>

definition int4 :: "int \<Rightarrow> bool" where
  "int4 v \<longleftrightarrow> - 2147483648 \<le> v \<and> v \<le> 2147483647"

record menu =
  m_id :: string
  m_name :: string
  m_price_col :: "32 word"
  m_stock_col :: "32 word"
  m_is_available :: bool

definition m_price :: "menu \<Rightarrow> int" where
  "m_price m = sint (m_price_col m)"

definition m_stock :: "menu \<Rightarrow> int" where
  "m_stock m = sint (m_stock_col m)"

definition set_stock :: "int \<Rightarrow> menu \<Rightarrow> menu" where
  "set_stock v m = m\<lparr>m_stock_col := word_of_int v\<rparr>"

record table_row =
  t_id :: string
  t_name :: string
  t_desc :: "string option"

record order_item =
  oi_menu_id :: string
  oi_price :: int
  oi_quantity :: int
  oi_subtotal :: int
  oi_customization :: "string option"

record order_row =
  o_id :: string
  o_customer_id :: string
  o_table_id :: string
  o_order_status :: string
  o_payment_status :: string
  o_total_amount :: int
  o_order_items :: "order_item list"

datatype action = Add | Set | Subtract

text \<open>
  A validation issue of the schema library: the field it is about, its kind, and the
  message when the schema of the source gives one.
\<close>

datatype issue_code = invalid_type | invalid_enum_value | too_small

record zod_issue =
  zi_path :: string
  zi_code :: issue_code
  zi_message :: "string option"

text \<open>What the handlers throw, or what the store client throws inside them.\<close>

datatype js_error =
    MenuItemNotFound "string option"
  | InvalidQuantity "string option"
  | PrismaIntOutOfRange
  | PrismaRecordNotFound
  | ZodError "zod_issue list"

text \<open>
  The message of a log row is kept as the template of the source together with the
  values that the template interpolates.
\<close>

datatype log_message =
    OrderCreatedMsg string string nat rat
  | StockReducedMsg string rat string
  | StockChangeMsg action string string int int int "string option"
  | OrderErrorMsg js_error
  | StockErrorMsg string js_error

record log_row =
  log_user_id :: "string option"
  log_action :: string
  log_message :: log_message

record db =
  tables :: "table_row list"
  menus :: "menu list"
  orders :: "order_row list"
  logs :: "log_row list"

text \<open>\<^verbatim>\<open>prisma.log.create\<close>: the log is append-only.\<close>

definition log_create :: "string option \<Rightarrow> string \<Rightarrow> log_message \<Rightarrow> db \<Rightarrow> db" where
  "log_create uid act msg d =
     d\<lparr>logs := logs d @ [\<lparr>log_user_id = uid, log_action = act, log_message = msg\<rparr>]\<rparr>"

text \<open>\<^verbatim>\<open>prisma.menu.findUnique({ where: { id } })\<close>.\<close>

definition menu_findUnique :: "string \<Rightarrow> db \<Rightarrow> menu option" where
  "menu_findUnique i d = find (\<lambda>m. m_id m = i) (menus d)"

text \<open>
  \<^verbatim>\<open>tx.menu.update({ where: { id }, data: { stock: newStock } })\<close>: the client throws
  when the value does not fit the column, and when no row has the identifier.
\<close>

definition menu_update :: "string \<Rightarrow> int \<Rightarrow> db \<Rightarrow> js_error + db" where
  "menu_update i v d =
     (if \<not> int4 v then Inl PrismaIntOutOfRange
      else if \<not> list_ex (\<lambda>m. m_id m = i) (menus d) then Inl PrismaRecordNotFound
      else Inr (d\<lparr>menus := map (\<lambda>m. if m_id m = i then set_stock v m else m) (menus d)\<rparr>))"

text \<open>
  What the client stores in an \<^verbatim>\<open>Int\<close> column for a number that is not an integer: the
  number without its fraction.
\<close>

definition trunc :: "rat \<Rightarrow> int" where
  "trunc r = (if 0 \<le> r then \<lfloor>r\<rfloor> else \<lceil>r\<rceil>)"

text \<open>
  \<^verbatim>\<open>tx.menu.update({ where: { id }, data: { stock: { decrement: quantity } } })\<close>: the
  quantity loses its fraction; the client throws when it, or the stock that results, does
  not fit the column, and when no row has the identifier. The decrement has no lower bound
  of its own.
\<close>

definition menu_decrement :: "string \<Rightarrow> rat \<Rightarrow> db \<Rightarrow> js_error + db" where
  "menu_decrement i q d =
     (if \<not> int4 (trunc q) then Inl PrismaIntOutOfRange
      else if \<not> list_ex (\<lambda>m. m_id m = i) (menus d) then Inl PrismaRecordNotFound
      else if list_ex (\<lambda>m. m_id m = i \<and> \<not> int4 (m_stock m - trunc q)) (menus d)
      then Inl PrismaIntOutOfRange
      else Inr (d\<lparr>menus := map (\<lambda>m. if m_id m = i then set_stock (m_stock m - trunc q) m else m)
                             (menus d)\<rparr>))"

text \<open>\<^verbatim>\<open>Number.isInteger\<close> on a finite number.\<close>

definition isInteger :: "rat \<Rightarrow> bool" where
  "isInteger r \<longleftrightarrow> of_int \<lfloor>r\<rfloor> = r"

section \<open>The stock handler (\<^verbatim>\<open>app/api/menu/[id]/stock/route.ts\<close>)\<close>

text \<open>
  A field of the body of a stock update as \<^verbatim>\<open>request.json()\<close> delivers it; an absent
  field is \<^verbatim>\<open>undefined\<close>. A number of the request is a rational, since JSON has neither
  NaN nor infinities, and the arithmetic on numbers is exact, as it is in JavaScript on
  integers below \<open>2^53\<close>.
\<close>

datatype jsvalue =
    JUndefined
  | JNull
  | JBool bool
  | JNum rat
  | JStr string
  | JArr "jsvalue list"
  | JObj

record stock_body =
  b_action :: jsvalue
  b_quantity :: jsvalue
  b_reason :: jsvalue

text \<open>A JavaScript number: NaN, an infinity (\<open>True\<close> for the negative one) or a finite number.\<close>

datatype jsnum = NaN | Infinity bool | Finite rat

text \<open>
  JavaScript's \<^verbatim>\<open>Number(x)\<close>, which \<^verbatim>\<open>z.coerce.number()\<close> applies to the field. Its
  value on a non-empty string and on a non-empty array is the result of JavaScript's
  conversion of text to a floating-point number; that conversion is the first argument.
\<close>

definition Number_of :: "(jsvalue \<Rightarrow> jsnum) \<Rightarrow> jsvalue \<Rightarrow> jsnum" where
  "Number_of text_to_number x =
     (case x of
        JUndefined \<Rightarrow> NaN
      | JNull \<Rightarrow> Finite 0
      | JBool b \<Rightarrow> Finite (if b then 1 else 0)
      | JNum r \<Rightarrow> Finite r
      | JStr s \<Rightarrow> if s = [] then Finite 0 else text_to_number x
      | JArr xs \<Rightarrow> if xs = [] then Finite 0 else text_to_number x
      | JObj \<Rightarrow> NaN)"

text \<open>\<^verbatim>\<open>z.enum(["add", "set", "subtract"], { required_error })\<close>.\<close>

definition parse_action :: "jsvalue \<Rightarrow> zod_issue list + action" where
  "parse_action a =
     (case a of
        JUndefined \<Rightarrow> Inl [\<lparr>zi_path = ''action'', zi_code = invalid_type,
                            zi_message = Some ''Action is required (add, set, or subtract)''\<rparr>]
      | JStr s \<Rightarrow>
          if s = ''add'' then Inr Add
          else if s = ''set'' then Inr Set
          else if s = ''subtract'' then Inr Subtract
          else Inl [\<lparr>zi_path = ''action'', zi_code = invalid_enum_value, zi_message = None\<rparr>]
      | _ \<Rightarrow> Inl [\<lparr>zi_path = ''action'', zi_code = invalid_type, zi_message = None\<rparr>])"

text \<open>
  \<^verbatim>\<open>z.coerce.number().int().min(0, "Quantity must be 0 or greater")\<close>: the field is
  coerced to a number; NaN is refused as not a number; on a number both checks run, and a
  number that is not an integer is refused as of the wrong type.
\<close>

definition parse_quantity :: "(jsvalue \<Rightarrow> jsnum) \<Rightarrow> jsvalue \<Rightarrow> zod_issue list + int" where
  "parse_quantity text_to_number q =
     (case Number_of text_to_number q of
        NaN \<Rightarrow> Inl [\<lparr>zi_path = ''quantity'', zi_code = invalid_type, zi_message = None\<rparr>]
      | Infinity negative \<Rightarrow>
          Inl (\<lparr>zi_path = ''quantity'', zi_code = invalid_type, zi_message = None\<rparr> #
               (if negative
                then [\<lparr>zi_path = ''quantity'', zi_code = too_small,
                       zi_message = Some ''Quantity must be 0 or greater''\<rparr>]
                else []))
      | Finite r \<Rightarrow>
          (let issues =
             (if isInteger r then []
              else [\<lparr>zi_path = ''quantity'', zi_code = invalid_type, zi_message = None\<rparr>]) @
             (if 0 \<le> r then []
              else [\<lparr>zi_path = ''quantity'', zi_code = too_small,
                     zi_message = Some ''Quantity must be 0 or greater''\<rparr>])
           in if issues = [] then Inr \<lfloor>r\<rfloor> else Inl issues))"

text \<open>\<^verbatim>\<open>z.string().optional()\<close>.\<close>

definition parse_reason :: "jsvalue \<Rightarrow> zod_issue list + string option" where
  "parse_reason r =
     (case r of
        JUndefined \<Rightarrow> Inr None
      | JStr s \<Rightarrow> Inr (Some s)
      | _ \<Rightarrow> Inl [\<lparr>zi_path = ''reason'', zi_code = invalid_type, zi_message = None\<rparr>])"

text \<open>\<^verbatim>\<open>stockUpdateSchema.parse\<close>: the issues of all fields, in the order of the schema.\<close>

definition issues_of :: "zod_issue list + 'a \<Rightarrow> zod_issue list" where
  "issues_of r = (case r of Inl is \<Rightarrow> is | Inr _ \<Rightarrow> [])"

definition stockUpdateSchema_parse ::
  "(jsvalue \<Rightarrow> jsnum) \<Rightarrow> stock_body \<Rightarrow> zod_issue list + (action \<times> int \<times> string option)" where
  "stockUpdateSchema_parse text_to_number b =
     (case (parse_action (b_action b), parse_quantity text_to_number (b_quantity b),
            parse_reason (b_reason b)) of
        (Inr a, Inr q, Inr r) \<Rightarrow> Inr (a, q, r)
      | (pa, pq, pr) \<Rightarrow> Inl (issues_of pa @ issues_of pq @ issues_of pr))"

text \<open>The \<^verbatim>\<open>switch (action)\<close> of the handler: the new stock and the recorded change.\<close>

fun newStock :: "action \<Rightarrow> int \<Rightarrow> int \<Rightarrow> int" where
  "newStock Add stock quantity = stock + quantity"
| "newStock Subtract stock quantity = max 0 (stock - quantity)"
| "newStock Set stock quantity = quantity"

fun stockChange :: "action \<Rightarrow> int \<Rightarrow> int \<Rightarrow> int" where
  "stockChange Add stock quantity = quantity"
| "stockChange Subtract stock quantity = - min quantity stock"
| "stockChange Set stock quantity = quantity - stock"

record stock_change =
  previous_stock :: int
  new_stock :: int
  change :: int
  sc_action :: action

text \<open>
  The success message \<^verbatim>\<open>Stock updated successfully. ${verb} ${quantity} items.\<close> is
  kept as its verb and its number.
\<close>

datatype stock_response_body =
    SError string
  | SValidationFailed string "zod_issue list"
  | SSuccess "string \<times> int" menu stock_change

type_synonym stock_response = "nat \<times> stock_response_body"

fun action_verb :: "action \<Rightarrow> string" where
  "action_verb Add = ''Added''"
| "action_verb Subtract = ''Subtracted''"
| "action_verb Set = ''Set''"

text \<open>
  The transaction of the handler: the stock is written, then the change is logged. When
  a statement throws, nothing of the transaction is kept.
\<close>

definition stock_transaction ::
  "string \<Rightarrow> string \<Rightarrow> menu \<Rightarrow> action \<Rightarrow> int \<Rightarrow> string option \<Rightarrow> db \<Rightarrow> js_error + (menu \<times> db)" where
  "stock_transaction uid i menuItem act quantity reason d =
     (let ns = newStock act (m_stock menuItem) quantity;
          sc = stockChange act (m_stock menuItem) quantity
      in case menu_update i ns d of
           Inl e \<Rightarrow> Inl e
         | Inr d1 \<Rightarrow>
             (case menu_findUnique i d1 of
                None \<Rightarrow> Inl PrismaRecordNotFound
              | Some updatedMenuItem \<Rightarrow>
                  Inr (updatedMenuItem,
                       log_create (Some uid) ''stock_updated''
                         (StockChangeMsg act (m_name menuItem) (if 0 < sc then ''+'' else [])
                            sc (m_stock menuItem) ns
                            (case reason of None \<Rightarrow> None
                             | Some r \<Rightarrow> if r = [] then None else Some r))
                         d1)))"

text \<open>
  The \<^verbatim>\<open>catch\<close> block: the failure is logged outside the transaction, and a
  validation error of the schema is answered with 400, any other error with 500.
\<close>

definition stock_catch :: "string \<Rightarrow> string \<Rightarrow> js_error \<Rightarrow> db \<Rightarrow> stock_response \<times> db" where
  "stock_catch uid i e d =
     (let d1 = log_create (Some uid) ''stock_error'' (StockErrorMsg i e) d
      in case e of
           ZodError issues \<Rightarrow> ((400, SValidationFailed ''Validation failed'' issues), d1)
         | _ \<Rightarrow> ((500, SError ''Failed to update stock''), d1))"

text \<open>
  \<^verbatim>\<open>PUT\<close>: JavaScript's conversion of text to a number, the session, the identifier of
  the route, the body, the store.
\<close>

definition PUT ::
  "(jsvalue \<Rightarrow> jsnum) \<Rightarrow> string option \<Rightarrow> string \<Rightarrow> stock_body \<Rightarrow> db \<Rightarrow> stock_response \<times> db" where
  "PUT text_to_number session i body d =
     (case session of
        None \<Rightarrow> ((401, SError ''Authentication required''), d)
      | Some uid \<Rightarrow>
          (case stockUpdateSchema_parse text_to_number body of
             Inl issues \<Rightarrow> stock_catch uid i (ZodError issues) d
           | Inr (act, quantity, reason) \<Rightarrow>
               (case menu_findUnique i d of
                  None \<Rightarrow> ((404, SError ''Menu item not found''), d)
                | Some menuItem \<Rightarrow>
                    (case stock_transaction uid i menuItem act quantity reason d of
                       Inl e \<Rightarrow> stock_catch uid i e d
                     | Inr (result, d1) \<Rightarrow>
                         ((200, SSuccess (action_verb act, quantity) result
                                  \<lparr>previous_stock = m_stock menuItem,
                                   new_stock = newStock act (m_stock menuItem) quantity,
                                   change = stockChange act (m_stock menuItem) quantity,
                                   sc_action = act\<rparr>), d1)))))"

section \<open>The checkout handler\<close>

text \<open>
  A cart line as it arrives. The identifier is a string or absent (\<open>None\<close>); the
  quantity is a number or absent. The handler does not check that the quantity is an
  integer, so it is a rational here.
\<close>

record cart_line =
  line_id :: "string option"
  line_quantity :: "rat option"
  line_customization :: "string option"

record checkout_request =
  tableId :: "string option"
  items :: "cart_line list option"

text \<open>JavaScript's \<^verbatim>\<open>!x\<close> on a string and on a number, \<^verbatim>\<open>typeof x\<close> on an identifier.\<close>

definition falsy_string :: "string option \<Rightarrow> bool" where
  "falsy_string s \<longleftrightarrow> s = None \<or> s = Some []"

definition falsy_number :: "rat option \<Rightarrow> bool" where
  "falsy_number q \<longleftrightarrow> q = None \<or> q = Some 0"

definition typeof_id :: "string option \<Rightarrow> string" where
  "typeof_id s = (case s of None \<Rightarrow> ''undefined'' | Some _ \<Rightarrow> ''string'')"

text \<open>\<^verbatim>\<open>q <= 0\<close> and \<^verbatim>\<open>stock < q\<close>: a comparison with an absent number is false.\<close>

definition le_zero :: "rat option \<Rightarrow> bool" where
  "le_zero q = (case q of None \<Rightarrow> False | Some r \<Rightarrow> r \<le> 0)"

definition stock_lt :: "int \<Rightarrow> rat option \<Rightarrow> bool" where
  "stock_lt s q = (case q of None \<Rightarrow> False | Some r \<Rightarrow> of_int s < r)"

text \<open>The predicate of \<^verbatim>\<open>items.filter\<close> that collects the invalid lines.\<close>

definition isInvalid :: "cart_line \<Rightarrow> bool" where
  "isInvalid item \<longleftrightarrow>
     falsy_string (line_id item) \<or> typeof_id (line_id item) \<noteq> ''string'' \<or>
     falsy_number (line_quantity item) \<or> le_zero (line_quantity item)"

definition invalidItems :: "cart_line list \<Rightarrow> cart_line list" where
  "invalidItems its = filter isInvalid its"

text \<open>\<^verbatim>\<open>items.map((item) => item.id).filter(Boolean)\<close>.\<close>

definition menuIds :: "cart_line list \<Rightarrow> string list" where
  "menuIds its = map the (filter (\<lambda>i. \<not> falsy_string i) (map line_id its))"

text \<open>
  \<^verbatim>\<open>prisma.menu.findMany({ where: { id: { in: menuIds }, is_available: true } })\<close>:
  every row of the table that matches, once.
\<close>

definition menu_findMany :: "string list \<Rightarrow> db \<Rightarrow> menu list" where
  "menu_findMany ids d = filter (\<lambda>m. m_id m \<in> set ids \<and> m_is_available m) (menus d)"

definition table_findUnique :: "string \<Rightarrow> db \<Rightarrow> table_row option" where
  "table_findUnique i d = find (\<lambda>t. t_id t = i) (tables d)"

text \<open>\<^verbatim>\<open>menuItems.find((menu) => menu.id === item.id)\<close>.\<close>

definition find_menu :: "menu list \<Rightarrow> cart_line \<Rightarrow> menu option" where
  "find_menu menuItems item = find (\<lambda>menu. Some (m_id menu) = line_id item) menuItems"

text \<open>\<^verbatim>\<open>menuIds.filter((id) => !foundIds.includes(id))\<close>.\<close>

definition missingIds :: "menu list \<Rightarrow> string list \<Rightarrow> string list" where
  "missingIds menuItems ids = filter (\<lambda>i. i \<notin> set (map m_id menuItems)) ids"

record stock_error =
  se_menu_id :: "string option"
  se_menu_name :: string
  se_requested :: "rat option"
  se_available :: int

text \<open>The loop that collects \<^verbatim>\<open>stockErrors\<close>.\<close>

fun stockErrors :: "menu list \<Rightarrow> cart_line list \<Rightarrow> stock_error list" where
  "stockErrors menuItems [] = []"
| "stockErrors menuItems (item # rest) =
     (case find_menu menuItems item of
        Some menuItem \<Rightarrow>
          if stock_lt (m_stock menuItem) (line_quantity item)
          then \<lparr>se_menu_id = line_id item, se_menu_name = m_name menuItem,
                se_requested = line_quantity item, se_available = m_stock menuItem\<rparr>
               # stockErrors menuItems rest
          else stockErrors menuItems rest
      | None \<Rightarrow> stockErrors menuItems rest)"

text \<open>
  An element of \<^verbatim>\<open>orderItemsData\<close>: the price is the one of the row read by
  \<^verbatim>\<open>findMany\<close>; quantity and subtotal are JavaScript numbers.
\<close>

record order_item_data =
  od_menu_id :: "string option"
  od_price :: int
  od_quantity :: rat
  od_subtotal :: rat
  od_customization :: "string option"

text \<open>
  The \<^verbatim>\<open>items.map\<close> that computes \<^verbatim>\<open>totalAmount\<close> and
  \<^verbatim>\<open>orderItemsData\<close>; the first argument is the total so far. Either
  \<^verbatim>\<open>throw\<close> leaves the map.
\<close>

fun orderItemsData ::
  "rat \<Rightarrow> menu list \<Rightarrow> cart_line list \<Rightarrow> js_error + (rat \<times> order_item_data list)" where
  "orderItemsData totalAmount menuItems [] = Inr (totalAmount, [])"
| "orderItemsData totalAmount menuItems (item # rest) =
     (case find_menu menuItems item of
        None \<Rightarrow> Inl (MenuItemNotFound (line_id item))
      | Some menuItem \<Rightarrow>
          if falsy_number (line_quantity item) \<or> le_zero (line_quantity item)
          then Inl (InvalidQuantity (line_id item))
          else
            (let subtotal = of_int (m_price menuItem) * the (line_quantity item)
             in case orderItemsData (totalAmount + subtotal) menuItems rest of
                  Inl e \<Rightarrow> Inl e
                | Inr (tot, ds) \<Rightarrow>
                    Inr (tot,
                         \<lparr>od_menu_id = line_id item, od_price = m_price menuItem,
                          od_quantity = the (line_quantity item), od_subtotal = subtotal,
                          od_customization =
                            (if falsy_string (line_customization item) then None
                             else line_customization item)\<rparr> # ds)))"

text \<open>
  What the validation hands to the transaction: the table, the lines, the rows read
  by \<^verbatim>\<open>findMany\<close>, the total and the order items.
\<close>

record checkout_plan =
  p_table :: table_row
  p_items :: "cart_line list"
  p_menuItems :: "menu list"
  p_totalAmount :: rat
  p_orderItemsData :: "order_item_data list"

datatype checkout_response_body =
    CError string
  | CInvalidItems string "cart_line list"
  | CMissingItems string "string list"
  | CStockErrors string "stock_error list"
  | CSuccess order_row

type_synonym checkout_response = "nat \<times> checkout_response_body"

text \<open>
  The handler up to the transaction. \<open>Inl (Inl e)\<close> is a thrown error, \<open>Inl (Inr r)\<close>
  an early response, \<open>Inr p\<close> the plan of a request that passed every check.
\<close>

definition checkout_validate ::
  "checkout_request \<Rightarrow> db \<Rightarrow> (js_error + checkout_response) + checkout_plan" where
  "checkout_validate req d =
     (if falsy_string (tableId req) \<or> items req = None \<or> items req = Some []
      then Inl (Inr (400, CError ''Table ID and items are required''))
      else
        (let its = the (items req) in
         case table_findUnique (the (tableId req)) d of
           None \<Rightarrow> Inl (Inr (400, CError ''Invalid table selected''))
         | Some tbl \<Rightarrow>
             if invalidItems its \<noteq> []
             then Inl (Inr (400, CInvalidItems ''All items must have valid ID and quantity''
                                   (invalidItems its)))
             else if menuIds its = []
             then Inl (Inr (400, CError ''No valid menu items found''))
             else
               (let menuItems = menu_findMany (menuIds its) d in
                if length menuItems \<noteq> length (menuIds its)
                then Inl (Inr (400, CMissingItems
                                      ''Some menu items are not available or do not exist''
                                      (missingIds menuItems (menuIds its))))
                else if stockErrors menuItems its \<noteq> []
                then Inl (Inr (400, CStockErrors ''Insufficient stock for some items''
                                      (stockErrors menuItems its)))
                else
                  (case orderItemsData 0 menuItems its of
                     Inl e \<Rightarrow> Inl (Inl e)
                   | Inr (tot, ds) \<Rightarrow>
                       Inr \<lparr>p_table = tbl, p_items = its, p_menuItems = menuItems,
                            p_totalAmount = tot, p_orderItemsData = ds\<rparr>))))"

text \<open>
  \<^verbatim>\<open>newOrder.id.slice(-8).toUpperCase()\<close>, on an identifier of ASCII characters.
\<close>

definition toUpperCase :: "char \<Rightarrow> char" where
  "toUpperCase c =
     (case map_of (zip ''abcdefghijklmnopqrstuvwxyz'' ''ABCDEFGHIJKLMNOPQRSTUVWXYZ'') c of
        Some u \<Rightarrow> u
      | None \<Rightarrow> c)"

definition order_number :: "string \<Rightarrow> string" where
  "order_number oid = map toUpperCase (drop (length oid - 8) oid)"

text \<open>
  \<^verbatim>\<open>tx.order.create\<close> with the nested order items: the columns are \<^verbatim>\<open>Int\<close>. A
  number that is not an integer is stored without its fraction; the client throws when a
  value does not fit the column.
\<close>

definition to_order_item :: "order_item_data \<Rightarrow> order_item" where
  "to_order_item x =
     \<lparr>oi_menu_id = the (od_menu_id x), oi_price = od_price x,
      oi_quantity = trunc (od_quantity x), oi_subtotal = trunc (od_subtotal x),
      oi_customization = od_customization x\<rparr>"

definition order_create ::
  "string \<Rightarrow> string \<Rightarrow> string \<Rightarrow> rat \<Rightarrow> order_item_data list \<Rightarrow> db \<Rightarrow> js_error + (order_row \<times> db)" where
  "order_create oid uid tid totalAmount ds d =
     (if int4 (trunc totalAmount) \<and>
         list_all (\<lambda>x. int4 (od_price x) \<and> int4 (trunc (od_quantity x)) \<and>
                        int4 (trunc (od_subtotal x))) ds
      then
        (let newOrder =
           \<lparr>o_id = oid, o_customer_id = uid, o_table_id = tid, o_order_status = ''pending'',
            o_payment_status = ''pending'', o_total_amount = trunc totalAmount,
            o_order_items = map to_order_item ds\<rparr>
         in Inr (newOrder, d\<lparr>orders := orders d @ [newOrder]\<rparr>))
      else Inl PrismaIntOutOfRange)"

text \<open>The loop of \<^verbatim>\<open>tx.menu.update\<close> with \<^verbatim>\<open>stock: { decrement: item.quantity }\<close>.\<close>

fun decrement_stock :: "cart_line list \<Rightarrow> db \<Rightarrow> js_error + db" where
  "decrement_stock [] d = Inr d"
| "decrement_stock (item # rest) d =
     (case menu_decrement (the (line_id item)) (the (line_quantity item)) d of
        Inl e \<Rightarrow> Inl e
      | Inr d1 \<Rightarrow> decrement_stock rest d1)"

text \<open>The loop that logs one \<^verbatim>\<open>stock_updated\<close> row for each line.\<close>

fun log_stock_updates :: "string \<Rightarrow> string \<Rightarrow> menu list \<Rightarrow> cart_line list \<Rightarrow> db \<Rightarrow> db" where
  "log_stock_updates uid oid menuItems [] d = d"
| "log_stock_updates uid oid menuItems (item # rest) d =
     (case find_menu menuItems item of
        Some menuItem \<Rightarrow>
          log_stock_updates uid oid menuItems rest
            (log_create (Some uid) ''stock_updated''
               (StockReducedMsg (m_name menuItem) (the (line_quantity item)) (order_number oid))
               d)
      | None \<Rightarrow> log_stock_updates uid oid menuItems rest d)"

text \<open>
  The transaction: the order with its items, the decrements, the log rows. It runs on
  the store as it is when the transaction starts.
\<close>

definition checkout_transaction ::
  "string \<Rightarrow> string \<Rightarrow> checkout_plan \<Rightarrow> db \<Rightarrow> js_error + (order_row \<times> db)" where
  "checkout_transaction oid uid p d =
     (case order_create oid uid (t_id (p_table p)) (p_totalAmount p) (p_orderItemsData p) d of
        Inl e \<Rightarrow> Inl e
      | Inr (newOrder, d1) \<Rightarrow>
          (case decrement_stock (p_items p) d1 of
             Inl e \<Rightarrow> Inl e
           | Inr d2 \<Rightarrow>
               Inr (newOrder,
                    log_stock_updates uid oid (p_menuItems p) (p_items p)
                      (log_create (Some uid) ''order_created''
                         (OrderCreatedMsg (order_number oid) (t_name (p_table p))
                            (length (p_items p)) (p_totalAmount p))
                         d2))))"

text \<open>The \<^verbatim>\<open>catch\<close> block: the failure is logged and answered with 500.\<close>

definition checkout_catch :: "string \<Rightarrow> js_error \<Rightarrow> db \<Rightarrow> checkout_response \<times> db" where
  "checkout_catch uid e d =
     ((500, CError ''Failed to process checkout''),
      log_create (Some uid) ''order_error'' (OrderErrorMsg e) d)"

text \<open>
  \<^verbatim>\<open>POST\<close>, with what other requests do to the store between the reads of the
  validation and the transaction as its first argument; the further arguments are the
  identifier that the store gives the new order, the session, the request and the store.
\<close>

definition POST_between ::
  "(db \<Rightarrow> db) \<Rightarrow> string \<Rightarrow> string option \<Rightarrow> checkout_request \<Rightarrow> db \<Rightarrow> checkout_response \<times> db" where
  "POST_between other oid session req d =
     (case session of
        None \<Rightarrow> ((401, CError ''Authentication required''), d)
      | Some uid \<Rightarrow>
          (case checkout_validate req d of
             Inl (Inr response) \<Rightarrow> (response, d)
           | Inl (Inl e) \<Rightarrow> checkout_catch uid e d
           | Inr p \<Rightarrow>
               (case checkout_transaction oid uid p (other d) of
                  Inl e \<Rightarrow> checkout_catch uid e (other d)
                | Inr (newOrder, d1) \<Rightarrow> ((201, CSuccess newOrder), d1))))"

text \<open>\<^verbatim>\<open>POST\<close> when no other request touches the store meanwhile.\<close>

definition POST :: "string \<Rightarrow> string option \<Rightarrow> checkout_request \<Rightarrow> db \<Rightarrow> checkout_response \<times> db" where
  "POST oid session req d = POST_between (\<lambda>x. x) oid session req d"

section \<open>Properties of the store\<close>

text \<open>The identifier is the primary key of the menu table.\<close>

definition menu_ids_unique :: "db \<Rightarrow> bool" where
  "menu_ids_unique d \<longleftrightarrow> distinct (map m_id (menus d))"

definition stock_nonneg :: "db \<Rightarrow> bool" where
  "stock_nonneg d \<longleftrightarrow> list_all (\<lambda>m. 0 \<le> m_stock m) (menus d)"

section \<open>Observations\<close>

text \<open>What a caller sees of a response and of the store.\<close>

definition stock_of :: "string \<Rightarrow> db \<Rightarrow> int option" where
  "stock_of i d = map_option m_stock (menu_findUnique i d)"

fun stock_change_of :: "stock_response \<Rightarrow> stock_change option" where
  "stock_change_of (st, SSuccess msg res sc) = Some sc"
| "stock_change_of (st, SError e) = None"
| "stock_change_of (st, SValidationFailed e is) = None"


text \<open>The log rows that a handler appended, and the change that the last row records.\<close>

definition new_logs :: "db \<Rightarrow> db \<Rightarrow> log_row list" where
  "new_logs d d' = drop (length (logs d)) (logs d')"

fun logged_change :: "log_row list \<Rightarrow> int option" where
  "logged_change [l] =
     (case log_message l of StockChangeMsg a n sg c p ns r \<Rightarrow> Some c | _ \<Rightarrow> None)"
| "logged_change ls = None"

section \<open>The words of the specification\<close>

text \<open>
  A stock update is valid when its action is one of the three recognised values, its
  quantity, coerced to a number, is an integer that is not negative, and its reason is
  absent or a string.
\<close>

definition action_ok :: "jsvalue \<Rightarrow> bool" where
  "action_ok a \<longleftrightarrow> a = JStr ''add'' \<or> a = JStr ''subtract'' \<or> a = JStr ''set''"

definition quantity_ok :: "(jsvalue \<Rightarrow> jsnum) \<Rightarrow> jsvalue \<Rightarrow> bool" where
  "quantity_ok text_to_number q =
     (case Number_of text_to_number q of
        NaN \<Rightarrow> False
      | Infinity negative \<Rightarrow> False
      | Finite r \<Rightarrow> isInteger r \<and> 0 \<le> r)"

definition reason_ok :: "jsvalue \<Rightarrow> bool" where
  "reason_ok r = (case r of JUndefined \<Rightarrow> True | JStr s \<Rightarrow> True | _ \<Rightarrow> False)"

text \<open>The reason of a body of the declared type: absent, or a string.\<close>

definition reason_value :: "string option \<Rightarrow> jsvalue" where
  "reason_value r = (case r of None \<Rightarrow> JUndefined | Some s \<Rightarrow> JStr s)"

text \<open>
  A cart line is malformed when its identifier is absent or empty, or its quantity is
  absent, zero or negative.
\<close>

definition malformed_line :: "cart_line \<Rightarrow> bool" where
  "malformed_line l \<longleftrightarrow>
     (case line_id l of None \<Rightarrow> True | Some s \<Rightarrow> s = []) \<or>
     (case line_quantity l of None \<Rightarrow> True | Some r \<Rightarrow> r \<le> 0)"

text \<open>A menu item is on offer when a row with its identifier exists and is available.\<close>

definition on_offer :: "db \<Rightarrow> string \<Rightarrow> bool" where
  "on_offer d i = list_ex (\<lambda>m. m_id m = i \<and> m_is_available m) (menus d)"

text \<open>
  What is reported for a line whose quantity exceeds the current stock of the menu
  item it refers to: the identifier, the name, the requested quantity and the stock.
\<close>

definition over_request :: "db \<Rightarrow> cart_line \<Rightarrow> stock_error option" where
  "over_request d l =
     (case line_id l of
        None \<Rightarrow> None
      | Some i \<Rightarrow>
          (case menu_findUnique i d of
             None \<Rightarrow> None
           | Some m \<Rightarrow>
               if stock_lt (m_stock m) (line_quantity l)
               then Some \<lparr>se_menu_id = line_id l, se_menu_name = m_name m,
                          se_requested = line_quantity l, se_available = m_stock m\<rparr>
               else None))"

definition over_requested :: "db \<Rightarrow> cart_line \<Rightarrow> bool" where
  "over_requested d l \<longleftrightarrow> over_request d l \<noteq> None"

text \<open>
  The requests that the first three checks of the checkout let through: the table
  exists, no line is malformed, every line refers to a menu item on offer, and no two
  lines refer to the same one.
\<close>

definition passes_item_checks :: "checkout_request \<Rightarrow> db \<Rightarrow> bool" where
  "passes_item_checks req d \<longleftrightarrow>
     (case (tableId req, items req) of
        (Some tid, Some its) \<Rightarrow>
          tid \<noteq> [] \<and> its \<noteq> [] \<and> table_findUnique tid d \<noteq> None \<and>
          list_all (\<lambda>l. \<not> malformed_line l) its \<and>
          list_all (\<lambda>l. on_offer d (the (line_id l))) its \<and>
          distinct (map line_id its)
      | _ \<Rightarrow> False)"

section \<open>The scenarios of the specification\<close>

definition scenario_db :: db where
  "scenario_db =
     \<lparr>tables = [\<lparr>t_id = ''t1'', t_name = ''Table 1'', t_desc = None\<rparr>],
      menus =
        [\<lparr>m_id = ''m1'', m_name = ''Nasi Goreng'', m_price_col = 25000, m_stock_col = 10,
          m_is_available = True\<rparr>,
         \<lparr>m_id = ''m2'', m_name = ''Es Teh'', m_price_col = 5000, m_stock_col = 2,
          m_is_available = True\<rparr>,
         \<lparr>m_id = ''m3'', m_name = ''Sate'', m_price_col = 30000, m_stock_col = 8,
          m_is_available = True\<rparr>,
         \<lparr>m_id = ''m4'', m_name = ''Soto'', m_price_col = 20000, m_stock_col = 1,
          m_is_available = False\<rparr>],
      orders = [],
      logs = []\<rparr>"

definition line :: "string \<Rightarrow> rat \<Rightarrow> cart_line" where
  "line i q = \<lparr>line_id = Some i, line_quantity = Some q, line_customization = None\<rparr>"

definition cart :: "string \<Rightarrow> cart_line list \<Rightarrow> checkout_request" where
  "cart tid its = \<lparr>tableId = Some tid, items = Some its\<rparr>"

definition stock_request :: "string \<Rightarrow> rat \<Rightarrow> stock_body" where
  "stock_request a q = \<lparr>b_action = JStr a, b_quantity = JNum q, b_reason = JUndefined\<rparr>"

text \<open>A stand-in for the conversion of text to a number, for bodies without text.\<close>

definition no_text :: "jsvalue \<Rightarrow> jsnum" where
  "no_text x = NaN"

text \<open>A catalog edit by another request: every price is raised.\<close>

definition raise_prices :: "int \<Rightarrow> db \<Rightarrow> db" where
  "raise_prices n d =
     d\<lparr>menus := map (\<lambda>m. m\<lparr>m_price_col := word_of_int (m_price m + n)\<rparr>) (menus d)\<rparr>"

text \<open>A stock update by another request: an administrator sets the stock of an item.\<close>

definition admin_sets_stock :: "string \<Rightarrow> int \<Rightarrow> db \<Rightarrow> db" where
  "admin_sets_stock i n d = snd (PUT no_text (Some ''admin'') i (stock_request ''set'' (of_int n)) d)"

section \<open>The store: lemmas\<close>

lemma int4_sint: "int4 (sint (w :: 32 word))"
  using sint_ge[of w] sint_lt[of w] by (simp add: int4_def)

lemma sint_of_int4: "int4 v \<Longrightarrow> sint (word_of_int v :: 32 word) = v"
  by (simp add: int4_def sint_sbintrunc' signed_take_bit_int_eq_self)

lemma int4_m_stock: "int4 (m_stock m)"
  by (simp add: m_stock_def int4_sint)

lemma m_stock_set_stock: "int4 v \<Longrightarrow> m_stock (set_stock v m) = v"
  by (simp add: m_stock_def set_stock_def sint_of_int4)

lemma set_stock_same:
  "m_id (set_stock v m) = m_id m" "m_name (set_stock v m) = m_name m"
  "m_price (set_stock v m) = m_price m" "m_is_available (set_stock v m) = m_is_available m"
  by (simp_all add: set_stock_def m_price_def)

lemma floor_rat_numeral: "\<lfloor>numeral a / numeral b :: rat\<rfloor> = numeral a div numeral b"
  using floor_divide_of_int_eq[of "numeral a" "numeral b", where ?'a = rat] by simp

lemma isInteger_floor: "isInteger r \<Longrightarrow> of_int \<lfloor>r\<rfloor> = r"
  unfolding isInteger_def by assumption

lemma isInteger_of_int: "isInteger (of_int q)"
  by (simp add: isInteger_def)

lemma isInteger_numeral: "isInteger (numeral n)"
  by (simp add: isInteger_def)

lemma trunc_of_int: "trunc (of_int n) = n"
  by (simp add: trunc_def)

lemma trunc_nonneg: "0 \<le> r \<Longrightarrow> trunc r = \<lfloor>r\<rfloor>"
  by (simp add: trunc_def)

section \<open>The stock handler: lemmas\<close>

lemma find_Some_set: "find P xs = Some x \<Longrightarrow> x \<in> set xs \<and> P x"
  by (induction xs) (auto split: if_splits)

lemma find_map_stock:
  "find (\<lambda>m. m_id m = i) ms = Some m \<Longrightarrow>
   find (\<lambda>m. m_id m = i) (map (\<lambda>x. if m_id x = i then set_stock n x else x) ms) =
     Some (set_stock n m)"
  by (induction ms) (auto simp: set_stock_same split: if_splits)

lemma new_logs_log_create:
  "new_logs d (log_create u a msg (d\<lparr>menus := ms\<rparr>)) =
     [\<lparr>log_user_id = u, log_action = a, log_message = msg\<rparr>]"
  by (simp add: new_logs_def log_create_def)

lemma new_logs_log_create_same:
  "new_logs d (log_create u a msg d) = [\<lparr>log_user_id = u, log_action = a, log_message = msg\<rparr>]"
  by (simp add: new_logs_def log_create_def)

lemma menus_log_create: "menus (log_create u a msg d) = menus d"
  by (simp add: log_create_def)

lemma findUnique_ex: "menu_findUnique i d = Some m \<Longrightarrow> list_ex (\<lambda>m. m_id m = i) (menus d)"
  using find_Some_set[of "\<lambda>m. m_id m = i" "menus d" m]
  by (auto simp: menu_findUnique_def list_ex_iff)

lemma stock_transaction_ok:
  assumes "menu_findUnique i d = Some m" and "int4 (newStock act (m_stock m) q)"
  shows "stock_transaction uid i m act q r d =
     Inr (set_stock (newStock act (m_stock m) q) m,
          log_create (Some uid) ''stock_updated''
            (StockChangeMsg act (m_name m)
               (if 0 < stockChange act (m_stock m) q then ''+'' else [])
               (stockChange act (m_stock m) q) (m_stock m) (newStock act (m_stock m) q)
               (case r of None \<Rightarrow> None | Some x \<Rightarrow> if x = [] then None else Some x))
            (d\<lparr>menus := map (\<lambda>x. if m_id x = i
                                 then set_stock (newStock act (m_stock m) q) x else x)
                           (menus d)\<rparr>))"
proof -
  from assms(1) have f: "find (\<lambda>m. m_id m = i) (menus d) = Some m"
    by (simp add: menu_findUnique_def)
  show ?thesis
    using findUnique_ex[OF assms(1)] assms(2) find_map_stock[OF f]
    by (simp add: stock_transaction_def menu_update_def menu_findUnique_def Let_def)
qed

lemma stock_transaction_refused:
  assumes "\<not> int4 (newStock act (m_stock m) q)"
  shows "stock_transaction uid i m act q r d = Inl PrismaIntOutOfRange"
  using assms by (simp add: stock_transaction_def menu_update_def Let_def)

lemma PUT_ok:
  assumes "menu_findUnique i d = Some m"
    and "stockUpdateSchema_parse tn body = Inr (act, q, r)"
    and "int4 (newStock act (m_stock m) q)"
  shows "PUT tn (Some uid) i body d =
     ((200, SSuccess (action_verb act, q) (set_stock (newStock act (m_stock m) q) m)
              \<lparr>previous_stock = m_stock m, new_stock = newStock act (m_stock m) q,
               change = stockChange act (m_stock m) q, sc_action = act\<rparr>),
      log_create (Some uid) ''stock_updated''
        (StockChangeMsg act (m_name m)
           (if 0 < stockChange act (m_stock m) q then ''+'' else [])
           (stockChange act (m_stock m) q) (m_stock m) (newStock act (m_stock m) q)
           (case r of None \<Rightarrow> None | Some x \<Rightarrow> if x = [] then None else Some x))
        (d\<lparr>menus := map (\<lambda>x. if m_id x = i
                             then set_stock (newStock act (m_stock m) q) x else x)
                       (menus d)\<rparr>))"
  using assms by (simp add: PUT_def stock_transaction_ok)

lemma PUT_refused:
  assumes "menu_findUnique i d = Some m"
    and "stockUpdateSchema_parse tn body = Inr (act, q, r)"
    and "\<not> int4 (newStock act (m_stock m) q)"
  shows "PUT tn (Some uid) i body d =
     ((500, SError ''Failed to update stock''),
      log_create (Some uid) ''stock_error'' (StockErrorMsg i PrismaIntOutOfRange) d)"
  using assms by (simp add: PUT_def stock_transaction_refused stock_catch_def)

lemma parse_quantity_int: "0 \<le> q \<Longrightarrow> parse_quantity tn (JNum (of_int q)) = Inr q"
  by (simp add: parse_quantity_def Number_of_def isInteger_of_int)

lemma parse_reason_value: "parse_reason (reason_value r) = Inr r"
  by (cases r) (simp_all add: parse_reason_def reason_value_def)

lemma parse_int_body:
  "0 \<le> q \<Longrightarrow> parse_action a = Inr act \<Longrightarrow>
   stockUpdateSchema_parse tn
     \<lparr>b_action = a, b_quantity = JNum (of_int q), b_reason = reason_value r\<rparr> =
     Inr (act, q, r)"
  by (simp add: stockUpdateSchema_parse_def parse_quantity_int parse_reason_value)

lemma parse_action_simps:
  "parse_action (JStr ''add'') = Inr Add"
  "parse_action (JStr ''set'') = Inr Set"
  "parse_action (JStr ''subtract'') = Inr Subtract"
  by (simp_all add: parse_action_def)

lemma stock_of_after:
  assumes "menu_findUnique i d = Some m" and "int4 n"
  shows "stock_of i (log_create u a msg
           (d\<lparr>menus := map (\<lambda>x. if m_id x = i then set_stock n x else x) (menus d)\<rparr>)) =
         Some n"
  using assms find_map_stock[of i "menus d" m n]
  by (simp add: stock_of_def menu_findUnique_def log_create_def m_stock_set_stock)

lemma findUnique_after:
  assumes "menu_findUnique i d = Some m"
  shows "menu_findUnique i (log_create u a msg
           (d\<lparr>menus := map (\<lambda>x. if m_id x = i then set_stock n x else x) (menus d)\<rparr>)) =
         Some (set_stock n m)"
  using assms find_map_stock[of i "menus d" m n]
  by (simp add: menu_findUnique_def log_create_def)

lemma stock_of_log_create: "stock_of i (log_create u a msg d) = stock_of i d"
  by (simp add: stock_of_def menu_findUnique_def log_create_def)

lemma int4_subtract: "0 \<le> q \<Longrightarrow> int4 (max 0 (m_stock m - q))"
  using int4_m_stock[of m] by (auto simp: int4_def max_def)

lemma scenario_m3:
  "menu_findUnique ''m3'' scenario_db =
     Some \<lparr>m_id = ''m3'', m_name = ''Sate'', m_price_col = 30000, m_stock_col = 8,
           m_is_available = True\<rparr>"
  by (simp add: menu_findUnique_def scenario_db_def)

lemma scenario_m3_stock:
  "m_stock \<lparr>m_id = ''m3'', m_name = ''Sate'', m_price_col = 30000, m_stock_col = 8,
            m_is_available = True\<rparr> = 8"
  by (simp add: m_stock_def)

lemma stock_request_int:
  "stock_request a (of_int q) =
     \<lparr>b_action = JStr a, b_quantity = JNum (of_int q), b_reason = reason_value None\<rparr>"
  by (simp add: stock_request_def reason_value_def)

section \<open>The stock handler: claims\<close>

text \<open>
  C4. A stock adjustment with action \<open>subtract\<close> and a quantity \<open>q \<ge> 0\<close> on an existing menu
  item with stock \<open>s\<close> leaves the stock at \<open>max 0 (s - q)\<close>, and the change it reports and
  logs is \<open>- min q s\<close>; when \<open>q > s\<close> the new stock is 0 and the change is \<open>- s\<close>.
\<close>

theorem C4_subtract_clamps:
  assumes "menu_findUnique i d = Some m" and "0 \<le> q"
    and "body = \<lparr>b_action = JStr ''subtract'', b_quantity = JNum (of_int q),
                  b_reason = reason_value r\<rparr>"
  shows "stock_of i (snd (PUT tn (Some uid) i body d)) = Some (max 0 (m_stock m - q)) \<and>
         stock_change_of (fst (PUT tn (Some uid) i body d)) =
           Some \<lparr>previous_stock = m_stock m, new_stock = max 0 (m_stock m - q),
                 change = - min q (m_stock m), sc_action = Subtract\<rparr> \<and>
         logged_change (new_logs d (snd (PUT tn (Some uid) i body d))) =
           Some (- min q (m_stock m)) \<and>
         (m_stock m < q \<longrightarrow>
            newStock Subtract (m_stock m) q = 0 \<and> stockChange Subtract (m_stock m) q = - m_stock m)"
proof -
  have p: "stockUpdateSchema_parse tn body = Inr (Subtract, q, r)"
    using assms(2,3) by (simp add: parse_int_body parse_action_simps)
  have r: "int4 (newStock Subtract (m_stock m) q)"
    using int4_subtract[OF assms(2)] by simp
  show ?thesis
    using int4_subtract[OF assms(2), of m]
    by (simp add: PUT_ok[OF assms(1) p r] stock_of_after[OF assms(1)] new_logs_log_create)
qed

theorem C4_subtract_clamps_witness:
  "stock_of ''m3'' scenario_db = Some 8 \<and>
   stock_of ''m3''
     (snd (PUT no_text (Some ''u1'') ''m3'' (stock_request ''subtract'' 20) scenario_db)) =
     Some 0 \<and>
   map_option change
     (stock_change_of
        (fst (PUT no_text (Some ''u1'') ''m3'' (stock_request ''subtract'' 20) scenario_db))) =
     Some (- 8) \<and>
   logged_change (new_logs scenario_db
     (snd (PUT no_text (Some ''u1'') ''m3'' (stock_request ''subtract'' 20) scenario_db))) =
     Some (- 8)"
proof -
  have b: "stock_request ''subtract'' 20 =
             \<lparr>b_action = JStr ''subtract'', b_quantity = JNum (of_int 20),
              b_reason = reason_value None\<rparr>"
    using stock_request_int[of "''subtract''" 20] by simp
  have q: "(0::int) \<le> 20" by simp
  show ?thesis
    using C4_subtract_clamps[OF scenario_m3 q b, of no_text "''u1''"]
    by (simp add: stock_of_def scenario_m3 scenario_m3_stock)
qed

text \<open>
  C5, as amended. A stock adjustment with action \<open>set\<close> and a quantity \<open>q\<close> with
  \<open>0 \<le> q \<le> 2147483647\<close> on an existing menu item with stock \<open>s\<close> leaves the stock at \<open>q\<close>,
  whatever \<open>s\<close> is, and the change it reports and logs is \<open>q - s\<close>.
\<close>

theorem C5_set_exact:
  assumes "menu_findUnique i d = Some m" and "0 \<le> q" and "q \<le> 2147483647"
    and "body = \<lparr>b_action = JStr ''set'', b_quantity = JNum (of_int q),
                  b_reason = reason_value r\<rparr>"
  shows "stock_of i (snd (PUT tn (Some uid) i body d)) = Some q \<and>
         stock_change_of (fst (PUT tn (Some uid) i body d)) =
           Some \<lparr>previous_stock = m_stock m, new_stock = q,
                 change = q - m_stock m, sc_action = Set\<rparr> \<and>
         logged_change (new_logs d (snd (PUT tn (Some uid) i body d))) = Some (q - m_stock m)"
proof -
  have p: "stockUpdateSchema_parse tn body = Inr (Set, q, r)"
    using assms(2,4) by (simp add: parse_int_body parse_action_simps)
  have q4: "int4 q" using assms(2,3) by (simp add: int4_def)
  then have r: "int4 (newStock Set (m_stock m) q)" by simp
  show ?thesis
    using q4
    by (simp add: PUT_ok[OF assms(1) p r] stock_of_after[OF assms(1)] new_logs_log_create)
qed

theorem C5_set_exact_witness:
  "stock_of ''m3'' scenario_db = Some 8 \<and>
   stock_of ''m3''
     (snd (PUT no_text (Some ''u1'') ''m3'' (stock_request ''set'' 5) scenario_db)) = Some 5 \<and>
   map_option change
     (stock_change_of
        (fst (PUT no_text (Some ''u1'') ''m3'' (stock_request ''set'' 5) scenario_db))) =
     Some (- 3)"
proof -
  have b: "stock_request ''set'' 5 =
             \<lparr>b_action = JStr ''set'', b_quantity = JNum (of_int 5),
              b_reason = reason_value None\<rparr>"
    using stock_request_int[of "''set''" 5] by simp
  have q: "(0::int) \<le> 5" by simp
  have q': "(5::int) \<le> 2147483647" by simp
  show ?thesis
    using C5_set_exact[OF scenario_m3 q q' b, of no_text "''u1''"]
    by (simp add: stock_of_def scenario_m3 scenario_m3_stock)
qed

lemma scenario_set_too_large:
  "PUT tn (Some ''u1'') ''m3'' (stock_request ''set'' 3000000000) d =
     ((500, SError ''Failed to update stock''),
      log_create (Some ''u1'') ''stock_error'' (StockErrorMsg ''m3'' PrismaIntOutOfRange) d)"
  if "menu_findUnique ''m3'' d = Some m"
proof -
  have b: "stock_request ''set'' 3000000000 =
             \<lparr>b_action = JStr ''set'', b_quantity = JNum (of_int 3000000000),
              b_reason = reason_value None\<rparr>"
    using stock_request_int[of "''set''" 3000000000] by simp
  have p: "stockUpdateSchema_parse tn (stock_request ''set'' 3000000000) =
             Inr (Set, 3000000000, None)"
    unfolding b by (rule parse_int_body) (simp_all add: parse_action_simps)
  have r: "\<not> int4 (newStock Set (m_stock m) 3000000000)" by (simp add: int4_def)
  show ?thesis by (rule PUT_refused[OF that p r])
qed

text \<open>
  C5 as stated fails: a quantity of 3000000000 does not fit the \<^verbatim>\<open>Int\<close> column of the
  stock, the store client refuses it, the answer is 500 and the stock stays 8.
\<close>

theorem C5_counterexample:
  "stock_of ''m3'' scenario_db = Some 8 \<and>
   fst (PUT no_text (Some ''u1'') ''m3'' (stock_request ''set'' 3000000000) scenario_db) =
     (500, SError ''Failed to update stock'') \<and>
   stock_of ''m3''
     (snd (PUT no_text (Some ''u1'') ''m3'' (stock_request ''set'' 3000000000) scenario_db)) =
     Some 8"
  by (simp add: scenario_set_too_large[OF scenario_m3] stock_of_log_create)
     (simp add: stock_of_def scenario_m3 scenario_m3_stock)

text \<open>
  C8, as amended. The same \<open>set\<close> request with a quantity \<open>q\<close> with \<open>0 \<le> q \<le> 2147483647\<close>,
  issued twice in succession on an existing menu item: the stock is \<open>q\<close> after the first call
  and still \<open>q\<close> after the second, and the change that the second call reports and logs is 0.
\<close>

theorem C8_set_twice:
  assumes "menu_findUnique i d = Some m" and "0 \<le> q" and "q \<le> 2147483647"
    and "body = \<lparr>b_action = JStr ''set'', b_quantity = JNum (of_int q),
                  b_reason = reason_value r\<rparr>"
    and "d1 = snd (PUT tn (Some uid) i body d)"
  shows "stock_of i d1 = Some q \<and>
         stock_of i (snd (PUT tn (Some uid) i body d1)) = Some q \<and>
         stock_change_of (fst (PUT tn (Some uid) i body d1)) =
           Some \<lparr>previous_stock = q, new_stock = q, change = 0, sc_action = Set\<rparr> \<and>
         logged_change (new_logs d1 (snd (PUT tn (Some uid) i body d1))) = Some 0"
proof -
  have p: "stockUpdateSchema_parse tn body = Inr (Set, q, r)"
    using assms(2,4) by (simp add: parse_int_body parse_action_simps)
  have q4: "int4 q" using assms(2,3) by (simp add: int4_def)
  then have r: "int4 (newStock Set (m_stock m) q)" by simp
  have first: "stock_of i d1 = Some q"
    using q4 by (simp add: assms(5) PUT_ok[OF assms(1) p r] stock_of_after[OF assms(1)])
  have f1: "menu_findUnique i d1 = Some (set_stock q m)"
    by (simp add: assms(5) PUT_ok[OF assms(1) p r] findUnique_after[OF assms(1)])
  have s1: "m_stock (set_stock q m) = q" by (rule m_stock_set_stock[OF q4])
  have r1: "int4 (newStock Set (m_stock (set_stock q m)) q)" using q4 by simp
  show ?thesis
    using first q4
    by (simp add: PUT_ok[OF f1 p r1] stock_of_after[OF f1] new_logs_log_create s1)
qed

theorem C8_set_twice_witness:
  "stock_of ''m3'' scenario_db = Some 8 \<and>
   stock_of ''m3''
     (snd (PUT no_text (Some ''u1'') ''m3'' (stock_request ''set'' 5) scenario_db)) = Some 5 \<and>
   stock_of ''m3'' (snd (PUT no_text (Some ''u1'') ''m3'' (stock_request ''set'' 5)
     (snd (PUT no_text (Some ''u1'') ''m3'' (stock_request ''set'' 5) scenario_db)))) = Some 5 \<and>
   map_option change (stock_change_of (fst (PUT no_text (Some ''u1'') ''m3''
     (stock_request ''set'' 5)
     (snd (PUT no_text (Some ''u1'') ''m3'' (stock_request ''set'' 5) scenario_db))))) = Some 0"
proof -
  have b: "stock_request ''set'' 5 =
             \<lparr>b_action = JStr ''set'', b_quantity = JNum (of_int 5),
              b_reason = reason_value None\<rparr>"
    using stock_request_int[of "''set''" 5] by simp
  have q: "(0::int) \<le> 5" by simp
  have q': "(5::int) \<le> 2147483647" by simp
  show ?thesis
    using C8_set_twice[OF scenario_m3 q q' b refl, of no_text "''u1''"]
    by (simp add: stock_of_def scenario_m3 scenario_m3_stock)
qed

text \<open>
  C8 as stated fails: with a quantity of 3000000000 both calls are answered with 500, and
  the stock is 8 after the first call and after the second.
\<close>

theorem C8_counterexample:
  "stock_of ''m3'' scenario_db = Some 8 \<and>
   stock_of ''m3''
     (snd (PUT no_text (Some ''u1'') ''m3'' (stock_request ''set'' 3000000000) scenario_db)) =
     Some 8 \<and>
   fst (PUT no_text (Some ''u1'') ''m3'' (stock_request ''set'' 3000000000)
     (snd (PUT no_text (Some ''u1'') ''m3'' (stock_request ''set'' 3000000000) scenario_db))) =
     (500, SError ''Failed to update stock'') \<and>
   stock_of ''m3'' (snd (PUT no_text (Some ''u1'') ''m3'' (stock_request ''set'' 3000000000)
     (snd (PUT no_text (Some ''u1'') ''m3'' (stock_request ''set'' 3000000000) scenario_db)))) =
     Some 8"
proof -
  let ?d1 = "log_create (Some ''u1'') ''stock_error''
               (StockErrorMsg ''m3'' PrismaIntOutOfRange) scenario_db"
  have one: "PUT no_text (Some ''u1'') ''m3'' (stock_request ''set'' 3000000000) scenario_db =
               ((500, SError ''Failed to update stock''), ?d1)"
    by (rule scenario_set_too_large[OF scenario_m3])
  have f1: "menu_findUnique ''m3'' ?d1 =
     Some \<lparr>m_id = ''m3'', m_name = ''Sate'', m_price_col = 30000, m_stock_col = 8,
           m_is_available = True\<rparr>"
    using scenario_m3 by (simp add: menu_findUnique_def log_create_def)
  have s0: "stock_of ''m3'' scenario_db = Some 8"
    by (simp add: stock_of_def scenario_m3 scenario_m3_stock)
  show ?thesis
    by (simp add: one scenario_set_too_large[OF f1] stock_of_log_create s0)
qed



section \<open>The validation of a stock update\<close>

lemma parse_action_cases:
  "(action_ok a \<and> (\<exists>act. parse_action a = Inr act)) \<or>
   (\<not> action_ok a \<and>
      (\<exists>ia. parse_action a = Inl ia \<and> ia \<noteq> [] \<and> list_all (\<lambda>x. zi_path x = ''action'') ia))"
  by (cases a) (auto simp: parse_action_def action_ok_def)

lemma parse_quantity_cases:
  "(quantity_ok tn q \<and> (\<exists>n. parse_quantity tn q = Inr n)) \<or>
   (\<not> quantity_ok tn q \<and>
      (\<exists>iq. parse_quantity tn q = Inl iq \<and> iq \<noteq> [] \<and>
            list_all (\<lambda>x. zi_path x = ''quantity'') iq))"
  by (cases "Number_of tn q") (auto simp: parse_quantity_def quantity_ok_def Let_def)

lemma parse_reason_cases:
  "(reason_ok r \<and> (\<exists>s. parse_reason r = Inr s)) \<or>
   (\<not> reason_ok r \<and>
      (\<exists>ir. parse_reason r = Inl ir \<and> ir \<noteq> [] \<and> list_all (\<lambda>x. zi_path x = ''reason'') ir))"
  by (cases r) (auto simp: parse_reason_def reason_ok_def)

lemma issues_of_simps: "issues_of (Inl xs) = xs" "issues_of (Inr y) = []"
  by (simp_all add: issues_of_def)

lemma same_path_ex:
  "list_all (\<lambda>x. zi_path x = p) xs \<Longrightarrow>
   list_ex (\<lambda>x. zi_path x = p') xs \<longleftrightarrow> xs \<noteq> [] \<and> p' = p"
  by (cases xs) (auto simp: list_all_iff list_ex_iff)

lemma same_path_all:
  "list_all (\<lambda>x. zi_path x = p) xs \<Longrightarrow> p = ''action'' \<or> p = ''quantity'' \<or> p = ''reason'' \<Longrightarrow>
   list_all (\<lambda>x. zi_path x = ''action'' \<or> zi_path x = ''quantity'' \<or> zi_path x = ''reason'') xs"
  by (auto simp: list_all_iff)

lemma schema_parse_cases:
  "(action_ok (b_action b) \<and> quantity_ok tn (b_quantity b) \<and> reason_ok (b_reason b) \<and>
      (\<exists>x. stockUpdateSchema_parse tn b = Inr x)) \<or>
   (\<not> (action_ok (b_action b) \<and> quantity_ok tn (b_quantity b) \<and> reason_ok (b_reason b)) \<and>
      (\<exists>issues. stockUpdateSchema_parse tn b = Inl issues \<and> issues \<noteq> [] \<and>
         list_all (\<lambda>x. zi_path x = ''action'' \<or> zi_path x = ''quantity'' \<or>
                        zi_path x = ''reason'') issues \<and>
         (list_ex (\<lambda>x. zi_path x = ''action'') issues \<longleftrightarrow> \<not> action_ok (b_action b)) \<and>
         (list_ex (\<lambda>x. zi_path x = ''quantity'') issues \<longleftrightarrow> \<not> quantity_ok tn (b_quantity b)) \<and>
         (list_ex (\<lambda>x. zi_path x = ''reason'') issues \<longleftrightarrow> \<not> reason_ok (b_reason b))))"
proof -
  let ?pa = "parse_action (b_action b)"
  let ?pq = "parse_quantity tn (b_quantity b)"
  let ?pr = "parse_reason (b_reason b)"
  let ?is = "issues_of ?pa @ issues_of ?pq @ issues_of ?pr"
  have a: "list_all (\<lambda>x. zi_path x = ''action'') (issues_of ?pa)"
    "issues_of ?pa \<noteq> [] \<longleftrightarrow> \<not> action_ok (b_action b)"
    "action_ok (b_action b) \<longleftrightarrow> (\<exists>x. ?pa = Inr x)"
    using parse_action_cases[of "b_action b"] by (auto simp: issues_of_simps)
  have q: "list_all (\<lambda>x. zi_path x = ''quantity'') (issues_of ?pq)"
    "issues_of ?pq \<noteq> [] \<longleftrightarrow> \<not> quantity_ok tn (b_quantity b)"
    "quantity_ok tn (b_quantity b) \<longleftrightarrow> (\<exists>x. ?pq = Inr x)"
    using parse_quantity_cases[of tn "b_quantity b"] by (auto simp: issues_of_simps)
  have r: "list_all (\<lambda>x. zi_path x = ''reason'') (issues_of ?pr)"
    "issues_of ?pr \<noteq> [] \<longleftrightarrow> \<not> reason_ok (b_reason b)"
    "reason_ok (b_reason b) \<longleftrightarrow> (\<exists>x. ?pr = Inr x)"
    using parse_reason_cases[of "b_reason b"] by (auto simp: issues_of_simps)
  have all_paths: "list_all (\<lambda>x. zi_path x = ''action'' \<or> zi_path x = ''quantity'' \<or>
                        zi_path x = ''reason'') ?is"
    using same_path_all[OF a(1)] same_path_all[OF q(1)] same_path_all[OF r(1)] by simp
  have ex_a: "list_ex (\<lambda>x. zi_path x = ''action'') ?is \<longleftrightarrow> \<not> action_ok (b_action b)"
    using a(2) by (simp add: same_path_ex[OF a(1)] same_path_ex[OF q(1)] same_path_ex[OF r(1)])
  have ex_q: "list_ex (\<lambda>x. zi_path x = ''quantity'') ?is \<longleftrightarrow>
                \<not> quantity_ok tn (b_quantity b)"
    using q(2) by (simp add: same_path_ex[OF a(1)] same_path_ex[OF q(1)] same_path_ex[OF r(1)])
  have ex_r: "list_ex (\<lambda>x. zi_path x = ''reason'') ?is \<longleftrightarrow> \<not> reason_ok (b_reason b)"
    using r(2) by (simp add: same_path_ex[OF a(1)] same_path_ex[OF q(1)] same_path_ex[OF r(1)])
  show ?thesis
  proof (cases "action_ok (b_action b) \<and> quantity_ok tn (b_quantity b) \<and> reason_ok (b_reason b)")
    case True
    then obtain x y z where "?pa = Inr x" "?pq = Inr y" "?pr = Inr z"
      using a(3) q(3) r(3) by blast
    then have "stockUpdateSchema_parse tn b = Inr (x, y, z)"
      by (simp add: stockUpdateSchema_parse_def)
    then show ?thesis using True by blast
  next
    case False
    then have ne: "?is \<noteq> []" using a(2) q(2) r(2) by auto
    have "\<not> ((\<exists>x. ?pa = Inr x) \<and> (\<exists>x. ?pq = Inr x) \<and> (\<exists>x. ?pr = Inr x))"
      using False a(3) q(3) r(3) by blast
    then have "stockUpdateSchema_parse tn b = Inl ?is"
      by (cases ?pa; cases ?pq; cases ?pr) (simp_all add: stockUpdateSchema_parse_def)
    then show ?thesis using False ne all_paths ex_a ex_q ex_r by blast
  qed
qed

lemma PUT_invalid:
  assumes "stockUpdateSchema_parse tn body = Inl issues"
  shows "PUT tn (Some uid) i body d =
           ((400, SValidationFailed ''Validation failed'' issues),
            log_create (Some uid) ''stock_error'' (StockErrorMsg i (ZodError issues)) d)"
  using assms by (simp add: PUT_def stock_catch_def)

lemma PUT_not_found:
  assumes "stockUpdateSchema_parse tn body = Inr x" and "menu_findUnique i d = None"
  shows "PUT tn (Some uid) i body d = ((404, SError ''Menu item not found''), d)"
  using assms by (cases x) (simp add: PUT_def)

text \<open>
  What the coercion makes of a quantity: an absent quantity and an object are not numbers;
  \<^verbatim>\<open>null\<close>, \<^verbatim>\<open>false\<close>, the empty string and the empty array count as 0 and
  \<^verbatim>\<open>true\<close> as 1; a number counts as itself.
\<close>

lemma quantity_ok_simps:
  "quantity_ok tn JUndefined = False" "quantity_ok tn JObj = False"
  "quantity_ok tn JNull = True" "quantity_ok tn (JBool b) = True"
  "quantity_ok tn (JStr []) = True" "quantity_ok tn (JArr []) = True"
  "quantity_ok tn (JNum r) = (isInteger r \<and> 0 \<le> r)"
  by (simp_all add: quantity_ok_def Number_of_def isInteger_def)

text \<open>
  C7, as amended. For an authenticated stock update: when the action is not one of
  \<open>add\<close>, \<open>subtract\<close>, \<open>set\<close>, or the quantity, coerced to a number as the schema does, is
  not a number, not an integer or negative, or the reason is present and not a string, the
  answer is 400 ``Validation failed'' with at least one issue, every issue names the field it
  is about, and a field has an issue exactly when it is invalid; when the body is valid and
  the menu item does not exist, the answer is 404 ``Menu item not found''. In both cases the
  menu rows are unchanged and no \<open>stock_updated\<close> row is logged.
\<close>

theorem C7_stock_update_errors:
  "(\<not> (action_ok (b_action body) \<and> quantity_ok tn (b_quantity body) \<and>
        reason_ok (b_reason body)) \<longrightarrow>
      (\<exists>issues.
         fst (PUT tn (Some uid) i body d) =
           (400, SValidationFailed ''Validation failed'' issues) \<and>
         issues \<noteq> [] \<and>
         list_all (\<lambda>x. zi_path x = ''action'' \<or> zi_path x = ''quantity'' \<or>
                        zi_path x = ''reason'') issues \<and>
         (list_ex (\<lambda>x. zi_path x = ''action'') issues \<longleftrightarrow> \<not> action_ok (b_action body)) \<and>
         (list_ex (\<lambda>x. zi_path x = ''quantity'') issues \<longleftrightarrow>
            \<not> quantity_ok tn (b_quantity body)) \<and>
         (list_ex (\<lambda>x. zi_path x = ''reason'') issues \<longleftrightarrow> \<not> reason_ok (b_reason body))) \<and>
      menus (snd (PUT tn (Some uid) i body d)) = menus d \<and>
      list_all (\<lambda>l. log_action l \<noteq> ''stock_updated'')
        (new_logs d (snd (PUT tn (Some uid) i body d)))) \<and>
   (action_ok (b_action body) \<and> quantity_ok tn (b_quantity body) \<and> reason_ok (b_reason body) \<and>
    menu_findUnique i d = None \<longrightarrow>
      PUT tn (Some uid) i body d = ((404, SError ''Menu item not found''), d) \<and>
      new_logs d (snd (PUT tn (Some uid) i body d)) = [])"
proof (intro conjI impI)
  assume inv: "\<not> (action_ok (b_action body) \<and> quantity_ok tn (b_quantity body) \<and>
                   reason_ok (b_reason body))"
  then obtain issues where p: "stockUpdateSchema_parse tn body = Inl issues"
    and props: "issues \<noteq> []"
      "list_all (\<lambda>x. zi_path x = ''action'' \<or> zi_path x = ''quantity'' \<or>
                     zi_path x = ''reason'') issues"
      "list_ex (\<lambda>x. zi_path x = ''action'') issues \<longleftrightarrow> \<not> action_ok (b_action body)"
      "list_ex (\<lambda>x. zi_path x = ''quantity'') issues \<longleftrightarrow> \<not> quantity_ok tn (b_quantity body)"
      "list_ex (\<lambda>x. zi_path x = ''reason'') issues \<longleftrightarrow> \<not> reason_ok (b_reason body)"
    using schema_parse_cases[of body tn] by blast
  show "\<exists>issues.
         fst (PUT tn (Some uid) i body d) =
           (400, SValidationFailed ''Validation failed'' issues) \<and>
         issues \<noteq> [] \<and>
         list_all (\<lambda>x. zi_path x = ''action'' \<or> zi_path x = ''quantity'' \<or>
                        zi_path x = ''reason'') issues \<and>
         (list_ex (\<lambda>x. zi_path x = ''action'') issues \<longleftrightarrow> \<not> action_ok (b_action body)) \<and>
         (list_ex (\<lambda>x. zi_path x = ''quantity'') issues \<longleftrightarrow>
            \<not> quantity_ok tn (b_quantity body)) \<and>
         (list_ex (\<lambda>x. zi_path x = ''reason'') issues \<longleftrightarrow> \<not> reason_ok (b_reason body))"
    using props by (intro exI[of _ issues]) (simp add: PUT_invalid[OF p])
  show "menus (snd (PUT tn (Some uid) i body d)) = menus d"
    by (simp add: PUT_invalid[OF p] menus_log_create)
  show "list_all (\<lambda>l. log_action l \<noteq> ''stock_updated'')
          (new_logs d (snd (PUT tn (Some uid) i body d)))"
    by (simp add: PUT_invalid[OF p] new_logs_log_create_same)
next
  assume ok: "action_ok (b_action body) \<and> quantity_ok tn (b_quantity body) \<and>
              reason_ok (b_reason body) \<and> menu_findUnique i d = None"
  then obtain x where p: "stockUpdateSchema_parse tn body = Inr x"
    using schema_parse_cases[of body tn] by blast
  from ok have n: "menu_findUnique i d = None" by simp
  show "PUT tn (Some uid) i body d = ((404, SError ''Menu item not found''), d)"
    by (rule PUT_not_found[OF p n])
  show "new_logs d (snd (PUT tn (Some uid) i body d)) = []"
    by (simp add: PUT_not_found[OF p n] new_logs_def)
qed

theorem C7_stock_update_errors_witness:
  "\<not> quantity_ok no_text (JNum (- 1)) \<and> action_ok (JStr ''add'') \<and>
   quantity_ok no_text (JNum 4) \<and> reason_ok JUndefined \<and>
   menu_findUnique ''m9'' scenario_db = None \<and>
   fst (fst (PUT no_text (Some ''u1'') ''m3'' (stock_request ''add'' (- 1)) scenario_db)) = 400 \<and>
   menus (snd (PUT no_text (Some ''u1'') ''m3'' (stock_request ''add'' (- 1)) scenario_db)) =
     menus scenario_db \<and>
   PUT no_text (Some ''u1'') ''m9'' (stock_request ''add'' 4) scenario_db =
     ((404, SError ''Menu item not found''), scenario_db)"
proof -
  have a: "\<not> quantity_ok no_text (JNum (- 1))" by (simp add: quantity_ok_simps)
  have b: "action_ok (JStr ''add'')" by (simp add: action_ok_def)
  have c: "quantity_ok no_text (JNum 4)" by (simp add: quantity_ok_simps isInteger_numeral)
  have r: "reason_ok JUndefined" by (simp add: reason_ok_def)
  have n: "menu_findUnique ''m9'' scenario_db = None"
    by (simp add: menu_findUnique_def scenario_db_def)
  show ?thesis
    using a b c r n
      C7_stock_update_errors[of "stock_request ''add'' (- 1)" no_text "''u1''" "''m3''"
        scenario_db]
      C7_stock_update_errors[of "stock_request ''add'' 4" no_text "''u1''" "''m9''"
        scenario_db]
    by (auto simp: stock_request_def)
qed

text \<open>
  C7 as stated fails: for a menu item that does not exist and a negative quantity, the
  answer is 400, not 404, since the body is validated before the item is looked up.
\<close>

theorem C7_counterexample:
  "menu_findUnique ''m9'' scenario_db = None \<and>
   fst (PUT no_text (Some ''u1'') ''m9'' (stock_request ''add'' (- 1)) scenario_db) =
     (400, SValidationFailed ''Validation failed''
        [\<lparr>zi_path = ''quantity'', zi_code = too_small,
          zi_message = Some ''Quantity must be 0 or greater''\<rparr>])"
  by (simp add: menu_findUnique_def scenario_db_def PUT_def stock_request_def
      stockUpdateSchema_parse_def parse_action_def parse_quantity_def parse_reason_def
      Number_of_def issues_of_def isInteger_def stock_catch_def Let_def)

text \<open>
  A quantity of \<^verbatim>\<open>null\<close> is coerced to 0: the request
  \<^verbatim>\<open>{ "action": "set", "quantity": null }\<close> is answered with 200 and sets the stock to 0.
\<close>

lemma null_quantity_sets_zero:
  "fst (fst (PUT tn (Some ''u1'') ''m3''
               \<lparr>b_action = JStr ''set'', b_quantity = JNull, b_reason = JUndefined\<rparr>
               scenario_db)) = 200 \<and>
   stock_of ''m3'' (snd (PUT tn (Some ''u1'') ''m3''
               \<lparr>b_action = JStr ''set'', b_quantity = JNull, b_reason = JUndefined\<rparr>
               scenario_db)) = Some 0"
proof -
  have p: "stockUpdateSchema_parse tn
             \<lparr>b_action = JStr ''set'', b_quantity = JNull, b_reason = JUndefined\<rparr> =
           Inr (Set, 0, None)"
    by (simp add: stockUpdateSchema_parse_def parse_action_def parse_quantity_def
        parse_reason_def Number_of_def isInteger_def)
  have r: "int4 (newStock Set (m_stock \<lparr>m_id = ''m3'', m_name = ''Sate'', m_price_col = 30000,
             m_stock_col = 8, m_is_available = True\<rparr>) 0)"
    by (simp add: int4_def)
  show ?thesis
    by (simp add: PUT_ok[OF scenario_m3 p r] stock_of_after[OF scenario_m3] int4_def)
qed

section \<open>The checkout handler: lemmas\<close>


lemma findMany_ids_distinct:
  "menu_ids_unique d \<Longrightarrow> distinct (map m_id (menu_findMany ids d))"
  by (simp add: menu_ids_unique_def menu_findMany_def distinct_map_filter)

lemma findMany_ids_subset: "set (map m_id (menu_findMany ids d)) \<subseteq> set ids"
  by (auto simp: menu_findMany_def)

lemma findMany_length_card:
  assumes "menu_ids_unique d"
  shows "length (menu_findMany ids d) = card (set (map m_id (menu_findMany ids d)))"
proof -
  have "card (set (map m_id (menu_findMany ids d))) = length (map m_id (menu_findMany ids d))"
    using findMany_ids_distinct[OF assms] by (rule distinct_card)
  then show ?thesis by simp
qed

lemma findMany_length_le:
  assumes "menu_ids_unique d"
  shows "length (menu_findMany ids d) \<le> card (set ids)"
proof -
  have "card (set (map m_id (menu_findMany ids d))) \<le> card (set ids)"
    by (rule card_mono[OF finite_set findMany_ids_subset])
  then show ?thesis using findMany_length_card[OF assms] by simp
qed

lemma duplicate_ids_fail:
  assumes "menu_ids_unique d" and "\<not> distinct ids"
  shows "length (menu_findMany ids d) \<noteq> length ids"
proof -
  have "card (set ids) \<noteq> length ids" using assms(2) card_distinct by blast
  moreover have "card (set ids) \<le> length ids" by (rule card_length)
  ultimately have "card (set ids) < length ids" by simp
  then show ?thesis using findMany_length_le[OF assms(1), of ids] by simp
qed

lemma count_ok_set:
  assumes "menu_ids_unique d" and "length (menu_findMany ids d) = length ids"
  shows "set (map m_id (menu_findMany ids d)) = set ids"
proof (rule card_subset_eq)
  show "finite (set ids)" by simp
  show "set (map m_id (menu_findMany ids d)) \<subseteq> set ids" by (rule findMany_ids_subset)
  have "distinct ids" using duplicate_ids_fail[OF assms(1)] assms(2) by blast
  then have "card (set ids) = length ids" by (rule distinct_card)
  then show "card (set (map m_id (menu_findMany ids d))) = card (set ids)"
    using findMany_length_card[OF assms(1), of ids] assms(2) by simp
qed

lemma all_found_length:
  assumes "menu_ids_unique d" and "distinct ids"
    and "\<forall>i \<in> set ids. \<exists>m \<in> set (menus d). m_id m = i \<and> m_is_available m"
  shows "length (menu_findMany ids d) = length ids"
proof -
  have "set (map m_id (menu_findMany ids d)) = set ids"
    using assms(3) by (auto simp: menu_findMany_def)
  then have "card (set (map m_id (menu_findMany ids d))) = card (set ids)" by simp
  then show ?thesis
    using findMany_length_card[OF assms(1), of ids] distinct_card[OF assms(2)] by simp
qed

lemma find_in_findMany:
  assumes "distinct (map m_id ms)" and "m \<in> set ms" and "m_id m = i" and "m_is_available m" and "i \<in> S"
  shows "find (\<lambda>x. Some (m_id x) = Some i) (filter (\<lambda>x. m_id x \<in> S \<and> m_is_available x) ms) = Some m"
  using assms
proof (induction ms)
  case Nil then show ?case by simp
next
  case (Cons x xs)
  show ?case
  proof (cases "x = m")
    case True then show ?thesis using Cons.prems by simp
  next
    case False
    then have "m \<in> set xs" using Cons.prems by simp
    then have "m_id x \<noteq> i" using Cons.prems by (auto simp: image_iff)
    then show ?thesis using Cons \<open>m \<in> set xs\<close> by simp
  qed
qed

lemma find_unique:
  assumes "distinct (map m_id ms)" and "m \<in> set ms" and "m_id m = i"
  shows "find (\<lambda>x. m_id x = i) ms = Some m"
  using assms
proof (induction ms)
  case Nil then show ?case by simp
next
  case (Cons x xs)
  show ?case
  proof (cases "x = m")
    case True then show ?thesis using Cons.prems by simp
  next
    case False
    then have "m \<in> set xs" using Cons.prems by simp
    then have "m_id x \<noteq> i" using Cons.prems by (auto simp: image_iff)
    then show ?thesis using Cons \<open>m \<in> set xs\<close> by simp
  qed
qed

lemma isInvalid_iff: "isInvalid l \<longleftrightarrow> malformed_line l"
  by (cases "line_id l"; cases "line_quantity l")
     (auto simp: isInvalid_def malformed_line_def falsy_string_def falsy_number_def
        typeof_id_def le_zero_def)

lemma invalidItems_eq: "invalidItems its = filter malformed_line its"
  unfolding invalidItems_def by (rule filter_cong) (simp_all add: isInvalid_iff)

lemma well_formed_id: "\<not> malformed_line l \<Longrightarrow> \<exists>s. line_id l = Some s \<and> s \<noteq> []"
  by (cases "line_id l") (auto simp: malformed_line_def)

lemma well_formed_quantity: "\<not> malformed_line l \<Longrightarrow> \<exists>r. line_quantity l = Some r \<and> 0 < r"
  by (cases "line_quantity l") (auto simp: malformed_line_def)

lemma menuIds_well_formed:
  "list_all (\<lambda>l. \<not> malformed_line l) its \<Longrightarrow> menuIds its = map (\<lambda>l. the (line_id l)) its"
proof (induction its)
  case Nil then show ?case by (simp add: menuIds_def)
next
  case (Cons l ls)
  then obtain s where "line_id l = Some s" "s \<noteq> []" using well_formed_id by auto
  then show ?case using Cons by (simp add: menuIds_def falsy_string_def)
qed

lemma menuIds_member:
  "l \<in> set its \<Longrightarrow> line_id l = Some s \<Longrightarrow> s \<noteq> [] \<Longrightarrow> s \<in> set (menuIds its)"
  by (force simp: menuIds_def falsy_string_def)

lemma on_offer_iff: "on_offer d i \<longleftrightarrow> (\<exists>m \<in> set (menus d). m_id m = i \<and> m_is_available m)"
  by (simp add: on_offer_def list_ex_iff)

lemma found_iff_on_offer:
  "i \<in> set ids \<Longrightarrow> i \<in> set (map m_id (menu_findMany ids d)) \<longleftrightarrow> on_offer d i"
  by (auto simp: menu_findMany_def on_offer_iff)

lemma missingIds_eq:
  "missingIds (menu_findMany ids d) ids = filter (\<lambda>i. \<not> on_offer d i) ids"
  unfolding missingIds_def
  by (rule filter_cong) (simp_all add: found_iff_on_offer del: set_map)

lemma validate_table_ok:
  assumes "tableId req = Some tid" and "tid \<noteq> []" and "items req = Some its" and "its \<noteq> []"
    and "table_findUnique tid d = Some tbl"
  shows "checkout_validate req d =
     (if invalidItems its \<noteq> []
      then Inl (Inr (400, CInvalidItems ''All items must have valid ID and quantity''
                            (invalidItems its)))
      else if menuIds its = []
      then Inl (Inr (400, CError ''No valid menu items found''))
      else if length (menu_findMany (menuIds its) d) \<noteq> length (menuIds its)
      then Inl (Inr (400, CMissingItems ''Some menu items are not available or do not exist''
                            (missingIds (menu_findMany (menuIds its) d) (menuIds its))))
      else if stockErrors (menu_findMany (menuIds its) d) its \<noteq> []
      then Inl (Inr (400, CStockErrors ''Insufficient stock for some items''
                            (stockErrors (menu_findMany (menuIds its) d) its)))
      else
        (case orderItemsData 0 (menu_findMany (menuIds its) d) its of
           Inl e \<Rightarrow> Inl (Inl e)
         | Inr (tot, ds) \<Rightarrow>
             Inr \<lparr>p_table = tbl, p_items = its,
                  p_menuItems = menu_findMany (menuIds its) d,
                  p_totalAmount = tot, p_orderItemsData = ds\<rparr>))"
  using assms by (simp add: checkout_validate_def falsy_string_def Let_def)

lemma POST_early:
  "checkout_validate req d = Inl (Inr r) \<Longrightarrow> POST oid (Some uid) req d = (r, d)"
  by (simp add: POST_def POST_between_def)

lemma find_menu_findMany:
  assumes "menu_ids_unique d" and "line_id l = Some i" and "i \<in> set ids"
    and "m \<in> set (menus d)" and "m_id m = i" and "m_is_available m"
  shows "find_menu (menu_findMany ids d) l = Some m" and "menu_findUnique i d = Some m"
proof -
  have dist: "distinct (map m_id (menus d))" using assms(1) by (simp add: menu_ids_unique_def)
  show "find_menu (menu_findMany ids d) l = Some m"
    using find_in_findMany[OF dist assms(4) assms(5) assms(6) assms(3)]
    by (simp add: find_menu_def menu_findMany_def assms(2))
  show "menu_findUnique i d = Some m"
    using find_unique[OF dist assms(4) assms(5)] by (simp add: menu_findUnique_def)
qed

lemma stockErrors_eq:
  assumes "\<And>l. l \<in> set ls \<Longrightarrow>
             \<exists>i m. line_id l = Some i \<and> find_menu ms l = Some m \<and> menu_findUnique i d = Some m"
  shows "stockErrors ms ls = List.map_filter (over_request d) ls"
  using assms
proof (induction ls)
  case Nil then show ?case by simp
next
  case (Cons l ls)
  obtain i m where "line_id l = Some i" "find_menu ms l = Some m" "menu_findUnique i d = Some m"
    using Cons.prems[of l] by auto
  then have hd: "over_request d l =
      (if stock_lt (m_stock m) (line_quantity l)
       then Some \<lparr>se_menu_id = line_id l, se_menu_name = m_name m,
                  se_requested = line_quantity l, se_available = m_stock m\<rparr>
       else None)"
    by (simp add: over_request_def)
  have tl: "stockErrors ms ls = List.map_filter (over_request d) ls"
    using Cons by simp
  show ?case
    using \<open>find_menu ms l = Some m\<close> by (simp add: hd tl)
qed

lemma stockErrors_nonempty:
  "l \<in> set ls \<Longrightarrow> find_menu ms l = Some m \<Longrightarrow> stock_lt (m_stock m) (line_quantity l) \<Longrightarrow>
   stockErrors ms ls \<noteq> []"
  by (induction ls) (auto split: option.splits)

lemma map_filter_nonempty:
  "list_ex (\<lambda>l. f l \<noteq> None) ls \<Longrightarrow> List.map_filter f ls \<noteq> []"
  by (induction ls) (auto split: option.splits)

lemma over_requestedD:
  "over_requested d l \<Longrightarrow>
   \<exists>i m. line_id l = Some i \<and> menu_findUnique i d = Some m \<and> stock_lt (m_stock m) (line_quantity l)"
  by (auto simp: over_requested_def over_request_def split: option.splits if_splits)

lemma over_requested_caught:
  assumes uniq: "menu_ids_unique d" and mem: "l \<in> set its" and over: "over_requested d l"
    and valid: "invalidItems its = []"
    and len: "length (menu_findMany (menuIds its) d) = length (menuIds its)"
  shows "stockErrors (menu_findMany (menuIds its) d) its \<noteq> []"
proof -
  obtain i m where l: "line_id l = Some i" and f: "menu_findUnique i d = Some m"
    and lt: "stock_lt (m_stock m) (line_quantity l)"
    using over_requestedD[OF over] by blast
  have "\<not> malformed_line l" using valid mem by (auto simp: invalidItems_eq filter_empty_conv)
  then have "i \<noteq> []" using l well_formed_id by fastforce
  then have i_in: "i \<in> set (menuIds its)" using menuIds_member[OF mem l] by simp
  then have "i \<in> set (map m_id (menu_findMany (menuIds its) d))"
    using count_ok_set[OF uniq len] by simp
  then obtain m' where m': "m' \<in> set (menus d)" "m_id m' = i" "m_is_available m'"
    by (auto simp: menu_findMany_def)
  have "menu_findUnique i d = Some m'"
    by (rule find_menu_findMany(2)[OF uniq l i_in m'])
  then have "m' = m" using f by simp
  then have "find_menu (menu_findMany (menuIds its) d) l = Some m"
    using find_menu_findMany(1)[OF uniq l i_in m'] by simp
  then show ?thesis using stockErrors_nonempty[OF mem _ lt] by blast
qed

lemma validate_over_requested:
  assumes "menu_ids_unique d" and "items req = Some its" and "list_ex (over_requested d) its"
  shows "\<exists>r. checkout_validate req d = Inl (Inr r)"
proof -
  obtain l where mem: "l \<in> set its" and over: "over_requested d l"
    using assms(3) by (auto simp: list_ex_iff)
  have key: "invalidItems its = [] \<Longrightarrow>
             length (menu_findMany (menuIds its) d) = length (menuIds its) \<Longrightarrow>
             stockErrors (menu_findMany (menuIds its) d) its \<noteq> []"
    by (rule over_requested_caught[OF assms(1) mem over])
  show ?thesis
    using key assms(2)
    by (auto simp: checkout_validate_def Let_def split: option.splits)
qed

lemma passes_stock_errors:
  assumes uniq: "menu_ids_unique d" and pass: "passes_item_checks req d"
    and its: "items req = Some its"
  shows "invalidItems its = []" and "menuIds its \<noteq> []"
    and "length (menu_findMany (menuIds its) d) = length (menuIds its)"
    and "stockErrors (menu_findMany (menuIds its) d) its = List.map_filter (over_request d) its"
proof -
  from pass its obtain tid where tid: "tableId req = Some tid"
    and p: "tid \<noteq> []" "its \<noteq> []" "table_findUnique tid d \<noteq> None"
      "list_all (\<lambda>l. \<not> malformed_line l) its"
      "list_all (\<lambda>l. on_offer d (the (line_id l))) its"
      "distinct (map line_id its)"
    by (auto simp: passes_item_checks_def split: option.splits)
  show inv: "invalidItems its = []"
    using p(4) by (simp add: invalidItems_eq filter_empty_conv list_all_iff)
  have ids: "menuIds its = map (\<lambda>l. the (line_id l)) its" by (rule menuIds_well_formed[OF p(4)])
  show "menuIds its \<noteq> []" using p(2) ids by simp
  have some: "\<And>l. l \<in> set its \<Longrightarrow> \<exists>s. line_id l = Some s \<and> s \<noteq> []"
    using p(4) well_formed_id by (auto simp: list_all_iff)
  have inj: "inj_on the (set (map line_id its))"
    using some by (auto simp: inj_on_def) (metis option.sel)
  have "distinct (map the (map line_id its))"
    by (rule distinct_map[THEN iffD2, OF conjI[OF p(6) inj]])
  then have dist: "distinct (menuIds its)" using ids by (simp add: comp_def)
  have offer: "\<forall>i \<in> set (menuIds its). \<exists>m \<in> set (menus d). m_id m = i \<and> m_is_available m"
    using p(5) ids by (auto simp: list_all_iff on_offer_iff)
  show len: "length (menu_findMany (menuIds its) d) = length (menuIds its)"
    by (rule all_found_length[OF uniq dist offer])
  show "stockErrors (menu_findMany (menuIds its) d) its = List.map_filter (over_request d) its"
  proof (rule stockErrors_eq)
    fix l assume mem: "l \<in> set its"
    then obtain s where s: "line_id l = Some s" "s \<noteq> []" using some by blast
    have s_in: "s \<in> set (menuIds its)" by (rule menuIds_member[OF mem s])
    then obtain m where m: "m \<in> set (menus d)" "m_id m = s" "m_is_available m"
      using offer by blast
    show "\<exists>i m. line_id l = Some i \<and> find_menu (menu_findMany (menuIds its) d) l = Some m \<and>
                 menu_findUnique i d = Some m"
      using find_menu_findMany[OF uniq s(1) s_in m] s(1) by blast
  qed
qed

section \<open>The checkout handler: claims\<close>

text \<open>
  C1, as amended. For a checkout request with a line whose quantity exceeds the current stock
  of the menu item it refers to, nothing is committed: the store after the handler is the store
  before it. When the request is authenticated and passes the checks of the table, of the shape
  of the lines and of the availability of the items, with no two lines for the same item, the
  answer is 400 ``Insufficient stock for some items'' and lists, in the order of the cart, every
  over-requested line with its identifier, its name, the requested quantity and the stock.
\<close>

theorem C1_insufficient_stock:
  assumes "menu_ids_unique d" and "items req = Some its" and "list_ex (over_requested d) its"
  shows "snd (POST oid session req d) = d \<and>
         (session \<noteq> None \<and> passes_item_checks req d \<longrightarrow>
            fst (POST oid session req d) =
              (400, CStockErrors ''Insufficient stock for some items''
                      (List.map_filter (over_request d) its)) \<and>
            List.map_filter (over_request d) its \<noteq> [])"
proof (intro conjI impI)
  obtain r where early: "checkout_validate req d = Inl (Inr r)"
    using validate_over_requested[OF assms] by blast
  show "snd (POST oid session req d) = d"
    using early by (cases session) (simp_all add: POST_def POST_between_def)
next
  assume a: "session \<noteq> None \<and> passes_item_checks req d"
  then obtain uid where uid: "session = Some uid" by auto
  from a have pass: "passes_item_checks req d" by simp
  from pass assms(2) obtain tid tbl where t: "tableId req = Some tid" "tid \<noteq> []" "its \<noteq> []"
      "table_findUnique tid d = Some tbl"
    by (auto simp: passes_item_checks_def split: option.splits)
  have ne: "List.map_filter (over_request d) its \<noteq> []"
    using assms(3) by (intro map_filter_nonempty) (simp add: over_requested_def[abs_def])
  note ps = passes_stock_errors[OF assms(1) pass assms(2)]
  have "checkout_validate req d =
          Inl (Inr (400, CStockErrors ''Insufficient stock for some items''
                           (List.map_filter (over_request d) its)))"
    using ne by (simp add: validate_table_ok[OF t(1,2) assms(2) t(3,4)] ps)
  then show "fst (POST oid session req d) =
              (400, CStockErrors ''Insufficient stock for some items''
                      (List.map_filter (over_request d) its))"
    by (simp add: uid POST_early)
  show "List.map_filter (over_request d) its \<noteq> []" by (rule ne)
qed

lemma scenario_unique: "menu_ids_unique scenario_db"
  by (simp add: menu_ids_unique_def scenario_db_def)

lemmas scenario_eval =
  scenario_db_def line_def cart_def menu_findUnique_def table_findUnique_def
  over_requested_def over_request_def stock_lt_def malformed_line_def on_offer_def
  passes_item_checks_def m_stock_def m_price_def

lemmas checkout_eval =
  POST_def POST_between_def checkout_validate_def checkout_transaction_def checkout_catch_def
  order_create_def to_order_item_def menu_decrement_def set_stock_def log_create_def
  trunc_def int4_def floor_rat_numeral order_number_def toUpperCase_def
  invalidItems_def isInvalid_def falsy_string_def falsy_number_def typeof_id_def le_zero_def
  menuIds_def menu_findMany_def find_menu_def missingIds_def Let_def

theorem C1_insufficient_stock_witness:
  "menu_ids_unique scenario_db \<and>
   list_ex (over_requested scenario_db) [line ''m1'' 3, line ''m2'' 5] \<and>
   passes_item_checks (cart ''t1'' [line ''m1'' 3, line ''m2'' 5]) scenario_db \<and>
   POST ''o1'' (Some ''u1'') (cart ''t1'' [line ''m1'' 3, line ''m2'' 5]) scenario_db =
     ((400, CStockErrors ''Insufficient stock for some items''
              [\<lparr>se_menu_id = Some ''m2'', se_menu_name = ''Es Teh'', se_requested = Some 5,
                se_available = 2\<rparr>]),
      scenario_db)"
proof -
  have i: "items (cart ''t1'' [line ''m1'' 3, line ''m2'' 5]) = Some [line ''m1'' 3, line ''m2'' 5]"
    by (simp add: cart_def)
  have o: "list_ex (over_requested scenario_db) [line ''m1'' 3, line ''m2'' 5]"
    by (simp add: scenario_eval)
  have p: "passes_item_checks (cart ''t1'' [line ''m1'' 3, line ''m2'' 5]) scenario_db"
    by (simp add: scenario_eval)
  have e: "List.map_filter (over_request scenario_db) [line ''m1'' 3, line ''m2'' 5] =
             [\<lparr>se_menu_id = Some ''m2'', se_menu_name = ''Es Teh'', se_requested = Some 5,
               se_available = 2\<rparr>]"
    by (simp add: scenario_eval)
  show ?thesis
    using scenario_unique o p
      C1_insufficient_stock[OF scenario_unique i o, of "''o1''" "Some ''u1''"]
    by (simp add: e prod_eq_iff del: List.map_filter_simps)
qed

text \<open>
  C1 as stated fails. A line that asks for 5 of an item with stock 1 that is not available is
  answered with the availability error; so are two lines that each ask for 5 of an available
  item with stock 2, with an empty list of missing items.
\<close>

theorem C1_counterexample:
  "list_ex (over_requested scenario_db) [line ''m4'' 5] \<and>
   fst (POST ''o1'' (Some ''u1'') (cart ''t1'' [line ''m4'' 5]) scenario_db) =
     (400, CMissingItems ''Some menu items are not available or do not exist'' [''m4'']) \<and>
   list_ex (over_requested scenario_db) [line ''m2'' 5, line ''m2'' 5] \<and>
   fst (POST ''o1'' (Some ''u1'') (cart ''t1'' [line ''m2'' 5, line ''m2'' 5]) scenario_db) =
     (400, CMissingItems ''Some menu items are not available or do not exist'' [])"
  by (simp add: scenario_eval checkout_eval)

text \<open>
  C6, as amended. For an authenticated checkout request whose table exists and that has a line
  whose identifier is absent or empty, or whose quantity is absent, zero or negative, the
  answer is 400 ``All items must have valid ID and quantity'' with every such line, in the
  order of the cart, and the store is unchanged.
\<close>

theorem C6_malformed_lines:
  assumes "tableId req = Some tid" and "tid \<noteq> []" and "table_findUnique tid d \<noteq> None"
    and "items req = Some its" and "list_ex malformed_line its"
  shows "POST oid (Some uid) req d =
           ((400, CInvalidItems ''All items must have valid ID and quantity''
                    (filter malformed_line its)), d)"
proof -
  obtain tbl where t: "table_findUnique tid d = Some tbl" using assms(3) by blast
  have ne: "its \<noteq> []" using assms(5) by auto
  have bad: "filter malformed_line its \<noteq> []"
    using assms(5) by (simp add: filter_empty_conv list_ex_iff)
  have "checkout_validate req d =
          Inl (Inr (400, CInvalidItems ''All items must have valid ID and quantity''
                           (filter malformed_line its)))"
    using bad by (simp add: validate_table_ok[OF assms(1,2,4) ne t] invalidItems_eq)
  then show ?thesis by (rule POST_early)
qed

theorem C6_malformed_lines_witness:
  "list_ex malformed_line [line ''m1'' 0, line ''m2'' 1, line [] 2] \<and>
   POST ''o1'' (Some ''u1'') (cart ''t1'' [line ''m1'' 0, line ''m2'' 1, line [] 2]) scenario_db =
     ((400, CInvalidItems ''All items must have valid ID and quantity''
              [line ''m1'' 0, line [] 2]), scenario_db)"
proof -
  have t: "tableId (cart ''t1'' [line ''m1'' 0, line ''m2'' 1, line [] 2]) = Some ''t1''"
    by (simp add: cart_def)
  have n: "''t1'' \<noteq> []" by simp
  have f: "table_findUnique ''t1'' scenario_db \<noteq> None" by (simp add: scenario_eval)
  have i: "items (cart ''t1'' [line ''m1'' 0, line ''m2'' 1, line [] 2]) =
             Some [line ''m1'' 0, line ''m2'' 1, line [] 2]"
    by (simp add: cart_def)
  have m: "list_ex malformed_line [line ''m1'' 0, line ''m2'' 1, line [] 2]"
    by (simp add: scenario_eval)
  show ?thesis
    using m C6_malformed_lines[OF t n f i m, of "''o1''" "''u1''"]
    by (simp add: malformed_line_def line_def)
qed

text \<open>
  C6 as stated fails: a request with a malformed line for a table that does not exist is
  answered with the error of the table, since the table is checked before the lines.
\<close>

theorem C6_counterexample:
  "list_ex malformed_line [line ''m1'' 0] \<and>
   POST ''o1'' (Some ''u1'') (cart ''t9'' [line ''m1'' 0]) scenario_db =
     ((400, CError ''Invalid table selected''), scenario_db)"
  by (simp add: scenario_eval checkout_eval)

text \<open>
  C9, as amended. For an authenticated checkout request whose table exists, whose lines are
  all well-formed, and that has two lines with the same identifier, the answer is 400 ``Some
  menu items are not available or do not exist'', the store is unchanged, and the list of
  missing items holds the identifiers of the cart, in order and with repetitions, that are not
  on offer: it is empty when every line refers to an item on offer.
\<close>

theorem C9_duplicate_lines:
  assumes "menu_ids_unique d" and "tableId req = Some tid" and "tid \<noteq> []"
    and "table_findUnique tid d \<noteq> None" and "items req = Some its"
    and "list_all (\<lambda>l. \<not> malformed_line l) its" and "\<not> distinct (map line_id its)"
  shows "POST oid (Some uid) req d =
           ((400, CMissingItems ''Some menu items are not available or do not exist''
                    (filter (\<lambda>i. \<not> on_offer d i) (map (\<lambda>l. the (line_id l)) its))), d) \<and>
         (list_all (\<lambda>l. on_offer d (the (line_id l))) its \<longrightarrow>
            filter (\<lambda>i. \<not> on_offer d i) (map (\<lambda>l. the (line_id l)) its) = [])"
proof
  obtain tbl where t: "table_findUnique tid d = Some tbl" using assms(4) by blast
  have ne: "its \<noteq> []" using assms(7) by auto
  have inv: "invalidItems its = []"
    using assms(6) by (simp add: invalidItems_eq filter_empty_conv list_all_iff)
  have ids: "menuIds its = map (\<lambda>l. the (line_id l)) its"
    by (rule menuIds_well_formed[OF assms(6)])
  have ids_ne: "menuIds its \<noteq> []" using ne ids by simp
  have "map the (map line_id its) = menuIds its" using ids by (simp add: comp_def)
  then have "\<not> distinct (menuIds its)"
    using assms(7) distinct_map[of the "map line_id its"] by auto
  then have len: "length (menu_findMany (menuIds its) d) \<noteq> length (menuIds its)"
    by (rule duplicate_ids_fail[OF assms(1)])
  have "checkout_validate req d =
          Inl (Inr (400, CMissingItems ''Some menu items are not available or do not exist''
                           (filter (\<lambda>i. \<not> on_offer d i) (map (\<lambda>l. the (line_id l)) its))))"
    using inv ids_ne len
    by (simp add: validate_table_ok[OF assms(2,3,5) ne t] missingIds_eq) (simp add: ids)
  then show "POST oid (Some uid) req d =
           ((400, CMissingItems ''Some menu items are not available or do not exist''
                    (filter (\<lambda>i. \<not> on_offer d i) (map (\<lambda>l. the (line_id l)) its))), d)"
    by (rule POST_early)
  show "list_all (\<lambda>l. on_offer d (the (line_id l))) its \<longrightarrow>
          filter (\<lambda>i. \<not> on_offer d i) (map (\<lambda>l. the (line_id l)) its) = []"
    by (auto simp: filter_empty_conv list_all_iff)
qed

theorem C9_duplicate_lines_witness:
  "\<not> distinct (map line_id [line ''m1'' 1, line ''m1'' 2]) \<and>
   list_all (\<lambda>l. on_offer scenario_db (the (line_id l))) [line ''m1'' 1, line ''m1'' 2] \<and>
   POST ''o1'' (Some ''u1'') (cart ''t1'' [line ''m1'' 1, line ''m1'' 2]) scenario_db =
     ((400, CMissingItems ''Some menu items are not available or do not exist'' []), scenario_db)"
proof -
  have t: "tableId (cart ''t1'' [line ''m1'' 1, line ''m1'' 2]) = Some ''t1''"
    by (simp add: cart_def)
  have n: "''t1'' \<noteq> []" by simp
  have f: "table_findUnique ''t1'' scenario_db \<noteq> None" by (simp add: scenario_eval)
  have i: "items (cart ''t1'' [line ''m1'' 1, line ''m1'' 2]) = Some [line ''m1'' 1, line ''m1'' 2]"
    by (simp add: cart_def)
  have w: "list_all (\<lambda>l. \<not> malformed_line l) [line ''m1'' 1, line ''m1'' 2]"
    by (simp add: scenario_eval)
  have dup: "\<not> distinct (map line_id [line ''m1'' 1, line ''m1'' 2])"
    by (simp add: line_def)
  have off: "list_all (\<lambda>l. on_offer scenario_db (the (line_id l))) [line ''m1'' 1, line ''m1'' 2]"
    by (simp add: scenario_eval)
  show ?thesis
    using dup off C9_duplicate_lines[OF scenario_unique t n f i w dup, of "''o1''" "''u1''"]
    by simp
qed

text \<open>
  C9 as stated fails: with two lines for the same available item and a third line for an
  item that does not exist, the list of missing items is not empty.
\<close>

theorem C9_counterexample:
  "POST ''o1'' (Some ''u1'') (cart ''t1'' [line ''m1'' 1, line ''m1'' 1, line ''m9'' 1]) scenario_db =
     ((400, CMissingItems ''Some menu items are not available or do not exist'' [''m9'']),
      scenario_db)"
  by (simp add: scenario_eval checkout_eval)

section \<open>The checkout transaction: lemmas\<close>

lemma validate_Inr:
  assumes "checkout_validate req d = Inr p"
  shows "\<exists>its. items req = Some its \<and> p_items p = its \<and>
           p_menuItems p = menu_findMany (menuIds its) d \<and>
           orderItemsData 0 (p_menuItems p) its = Inr (p_totalAmount p, p_orderItemsData p) \<and>
           invalidItems its = [] \<and>
           length (menu_findMany (menuIds its) d) = length (menuIds its) \<and>
           stockErrors (p_menuItems p) its = []"
  using assms
  by (auto simp: checkout_validate_def Let_def
      split: if_splits option.splits sum.splits prod.splits)

lemma orderItemsData_sound:
  "orderItemsData acc ms its = Inr (tot, ds) \<Longrightarrow>
   tot = acc + sum_list (map od_subtotal ds) \<and>
   list_all2 (\<lambda>x l. od_menu_id x = line_id l \<and> line_quantity l = Some (od_quantity x) \<and>
                     od_subtotal x = of_int (od_price x) * od_quantity x \<and>
                     (\<exists>m. find_menu ms l = Some m \<and> od_price x = m_price m)) ds its"
proof (induction its arbitrary: acc tot ds)
  case Nil
  then show ?case by simp
next
  case (Cons l ls)
  from Cons.prems obtain m where m: "find_menu ms l = Some m"
    by (auto split: option.splits)
  from Cons.prems m have q: "\<not> falsy_number (line_quantity l)"
    by (auto split: if_splits)
  then obtain r where r: "line_quantity l = Some r"
    by (cases "line_quantity l") (auto simp: falsy_number_def)
  from Cons.prems m q obtain ds' where
    rest: "orderItemsData (acc + of_int (m_price m) * r) ms ls = Inr (tot, ds')"
    and ds: "ds = \<lparr>od_menu_id = line_id l, od_price = m_price m, od_quantity = r,
                   od_subtotal = of_int (m_price m) * r,
                   od_customization = (if falsy_string (line_customization l) then None
                                       else line_customization l)\<rparr> # ds'"
    by (auto simp: r Let_def split: if_splits sum.splits prod.splits)
  from Cons.IH[OF rest] show ?case
    by (simp add: ds m r add.assoc)
qed

lemma find_menu_findMany_set:
  "find_menu (menu_findMany ids d) l = Some m \<Longrightarrow>
   m \<in> set (menus d) \<and> Some (m_id m) = line_id l \<and> m_is_available m"
  using find_Some_set[of "\<lambda>menu. Some (m_id menu) = line_id l" "menu_findMany ids d" m]
  by (auto simp: find_menu_def menu_findMany_def)

lemma sum_floor:
  "list_all (\<lambda>x. isInteger (od_subtotal x)) ds \<Longrightarrow>
   \<lfloor>sum_list (map od_subtotal ds)\<rfloor> = sum_list (map (\<lambda>x. \<lfloor>od_subtotal x\<rfloor>) ds)"
proof (induction ds)
  case Nil then show ?case by simp
next
  case (Cons x xs)
  then have "isInteger (od_subtotal x)" by simp
  then have "od_subtotal x = of_int \<lfloor>od_subtotal x\<rfloor>" by (rule isInteger_floor[symmetric])
  then have "\<lfloor>od_subtotal x + sum_list (map od_subtotal xs)\<rfloor> =
             \<lfloor>od_subtotal x\<rfloor> + \<lfloor>sum_list (map od_subtotal xs)\<rfloor>"
    by (metis floor_add_int add.commute)
  then show ?case using Cons by simp
qed

lemma floor_price_times:
  assumes "isInteger q"
  shows "\<lfloor>of_int p * q\<rfloor> = p * \<lfloor>q\<rfloor>"
proof -
  have "of_int p * q = (of_int (p * \<lfloor>q\<rfloor>) :: rat)"
    using isInteger_floor[OF assms] by (simp only: of_int_mult)
  then show ?thesis by (metis floor_of_int)
qed

lemma trunc_isInteger: "isInteger r \<Longrightarrow> trunc r = \<lfloor>r\<rfloor>"
proof -
  assume "isInteger r"
  then have "r = of_int \<lfloor>r\<rfloor>" by (rule isInteger_floor[symmetric])
  then have "\<lceil>r\<rceil> = \<lfloor>r\<rfloor>" by (metis ceiling_of_int)
  then show ?thesis by (simp add: trunc_def)
qed

lemma trunc_le: "r \<le> of_int s \<Longrightarrow> trunc r \<le> s"
  by (simp add: trunc_def floor_le_iff ceiling_le_iff)

lemma order_create_Inr:
  assumes "order_create oid uid tid tot ds d = Inr (ord, d1)"
  shows "o_total_amount ord = trunc tot" and "o_order_items ord = map to_order_item ds"
    and "d1 = d\<lparr>orders := orders d @ [ord]\<rparr>"
  using assms by (auto simp: order_create_def Let_def split: if_splits)

lemma menu_decrement_Inr:
  assumes "menu_decrement i q d = Inr d1"
  shows "d1 = d\<lparr>menus := map (\<lambda>m. if m_id m = i then set_stock (m_stock m - trunc q) m else m)
                             (menus d)\<rparr>"
    and "\<forall>m \<in> set (menus d). m_id m = i \<longrightarrow> int4 (m_stock m - trunc q)"
  using assms by (auto simp: menu_decrement_def list_ex_iff split: if_splits)

lemma decrement_stock_orders: "decrement_stock ls d = Inr d' \<Longrightarrow> orders d' = orders d"
proof (induction ls arbitrary: d)
  case Nil then show ?case by simp
next
  case (Cons l ls)
  then obtain d1 where u: "menu_decrement (the (line_id l)) (the (line_quantity l)) d = Inr d1"
    and r: "decrement_stock ls d1 = Inr d'"
    by (auto split: sum.splits)
  have "orders d1 = orders d" using menu_decrement_Inr(1)[OF u] by simp
  then show ?case using Cons.IH[OF r] by simp
qed

lemma log_stock_updates_same:
  "orders (log_stock_updates uid oid ms ls d) = orders d \<and>
   menus (log_stock_updates uid oid ms ls d) = menus d"
  by (induction ls arbitrary: d) (auto simp: log_create_def split: option.splits)

lemma transaction_Inr:
  assumes "checkout_transaction oid uid p d = Inr (ord, d')"
  shows "\<exists>d1 d2. order_create oid uid (t_id (p_table p)) (p_totalAmount p) (p_orderItemsData p) d
                    = Inr (ord, d1) \<and>
                  decrement_stock (p_items p) d1 = Inr d2 \<and>
                  orders d' = orders d2 \<and> menus d' = menus d2"
  using assms
  by (auto simp: checkout_transaction_def log_stock_updates_same log_create_def
      split: sum.splits prod.splits)

lemma validate_early_status:
  "checkout_validate req d = Inl (Inr r) \<Longrightarrow> fst r = 400"
  by (auto simp: checkout_validate_def Let_def
      split: if_splits option.splits sum.splits prod.splits)

lemma POST_between_created:
  assumes "POST_between other oid session req d = ((201, CSuccess ord), d')"
  shows "\<exists>uid p. session = Some uid \<and> checkout_validate req d = Inr p \<and>
                 checkout_transaction oid uid p (other d) = Inr (ord, d')"
  using assms
  by (auto simp: POST_between_def checkout_catch_def dest: validate_early_status
      split: option.splits sum.splits prod.splits)

lemma isInteger_Ints: "isInteger r \<longleftrightarrow> r \<in> \<int>"
  by (auto simp: isInteger_def Ints_def)

lemma orderItemsData_ints:
  "orderItemsData acc ms its = Inr (tot, ds) \<Longrightarrow>
   list_all (\<lambda>l. isInteger (the (line_quantity l))) its \<Longrightarrow> isInteger acc \<Longrightarrow>
   isInteger tot \<and> list_all (\<lambda>x. isInteger (od_quantity x) \<and> isInteger (od_subtotal x)) ds"
proof (induction its arbitrary: acc tot ds)
  case Nil
  then show ?case by simp
next
  case (Cons l ls)
  from Cons.prems(1) obtain m where m: "find_menu ms l = Some m"
    by (auto split: option.splits)
  from Cons.prems(1) m have q: "\<not> falsy_number (line_quantity l)"
    by (auto split: if_splits)
  then obtain r where r: "line_quantity l = Some r"
    by (cases "line_quantity l") (auto simp: falsy_number_def)
  from Cons.prems(1) m q obtain ds' where
    rest: "orderItemsData (acc + of_int (m_price m) * r) ms ls = Inr (tot, ds')"
    and ds: "ds = \<lparr>od_menu_id = line_id l, od_price = m_price m, od_quantity = r,
                   od_subtotal = of_int (m_price m) * r,
                   od_customization = (if falsy_string (line_customization l) then None
                                       else line_customization l)\<rparr> # ds'"
    by (auto simp: r Let_def split: if_splits sum.splits prod.splits)
  have ri: "isInteger r" using Cons.prems(2) r by simp
  then have si: "isInteger (of_int (m_price m) * r)" by (simp add: isInteger_Ints)
  then have ai: "isInteger (acc + of_int (m_price m) * r)"
    using Cons.prems(3) by (simp add: isInteger_Ints)
  have "list_all (\<lambda>l. isInteger (the (line_quantity l))) ls" using Cons.prems(2) by simp
  from Cons.IH[OF rest this ai] show ?case using ri si by (simp add: ds)
qed

section \<open>Orders of carts with whole quantities\<close>

text \<open>
  When every quantity of the cart is an integer, a committed order is consistent, whatever
  other requests did to the store between the reads of the validation and the transaction:
  the total is the sum of the subtotals, the price of each item is the price of an available
  row with the identifier of the line in the store as it was at validation, and each subtotal
  is that price times the quantity.
\<close>

lemma integer_quantities_consistent:
  assumes "POST_between other oid session req d = ((201, CSuccess ord), d')"
    and whole: "list_all (\<lambda>l. isInteger (the (line_quantity l))) (the (items req))"
  shows "o_total_amount ord = sum_list (map oi_subtotal (o_order_items ord)) \<and>
         list_all2
           (\<lambda>oi l. line_id l = Some (oi_menu_id oi) \<and>
                    line_quantity l = Some (of_int (oi_quantity oi)) \<and>
                    oi_subtotal oi = oi_price oi * oi_quantity oi \<and>
                    list_ex (\<lambda>m. m_id m = oi_menu_id oi \<and> m_is_available m \<and>
                                  m_price m = oi_price oi) (menus d))
           (o_order_items ord) (the (items req)) \<and>
         orders d' = orders (other d) @ [ord]"
proof -
  obtain uid p where v: "checkout_validate req d = Inr p"
    and tx: "checkout_transaction oid uid p (other d) = Inr (ord, d')"
    using POST_between_created[OF assms(1)] by blast
  obtain its where its: "items req = Some its" "p_items p = its"
    and ms: "p_menuItems p = menu_findMany (menuIds its) d"
    and od: "orderItemsData 0 (p_menuItems p) its = Inr (p_totalAmount p, p_orderItemsData p)"
    using validate_Inr[OF v] by blast
  obtain d1 d2 where oc: "order_create oid uid (t_id (p_table p)) (p_totalAmount p)
                            (p_orderItemsData p) (other d) = Inr (ord, d1)"
    and dec: "decrement_stock (p_items p) d1 = Inr d2" and same: "orders d' = orders d2"
    using transaction_Inr[OF tx] by blast
  note c = order_create_Inr[OF oc]
  note s = orderItemsData_sound[OF od]
  have z: "isInteger 0" by (simp add: isInteger_def)
  have whole': "list_all (\<lambda>l. isInteger (the (line_quantity l))) its"
    using whole its(1) by simp
  note oi = orderItemsData_ints[OF od whole' z]
  have ints: "list_all (\<lambda>x. isInteger (od_subtotal x)) (p_orderItemsData p)"
    using oi by (simp add: list_all_iff)
  have tr: "map (\<lambda>x. trunc (od_subtotal x)) (p_orderItemsData p) =
            map (\<lambda>x. \<lfloor>od_subtotal x\<rfloor>) (p_orderItemsData p)"
    using ints by (intro map_cong refl trunc_isInteger) (simp add: list_all_iff)
  have "o_total_amount ord = \<lfloor>sum_list (map od_subtotal (p_orderItemsData p))\<rfloor>"
    using c(1) s oi by (simp add: trunc_isInteger)
  also have "\<dots> = sum_list (map (\<lambda>x. \<lfloor>od_subtotal x\<rfloor>) (p_orderItemsData p))"
    by (rule sum_floor[OF ints])
  also have "\<dots> = sum_list (map oi_subtotal (o_order_items ord))"
    by (simp add: c(2) to_order_item_def comp_def tr)
  finally have total: "o_total_amount ord = sum_list (map oi_subtotal (o_order_items ord))" .
  have "list_all2
           (\<lambda>oi l. line_id l = Some (oi_menu_id oi) \<and>
                    line_quantity l = Some (of_int (oi_quantity oi)) \<and>
                    oi_subtotal oi = oi_price oi * oi_quantity oi \<and>
                    list_ex (\<lambda>m. m_id m = oi_menu_id oi \<and> m_is_available m \<and>
                                  m_price m = oi_price oi) (menus d))
           (map to_order_item (p_orderItemsData p)) its"
    unfolding list_all2_map1
  proof (rule list.rel_mono_strong[OF conjunct2[OF s]])
    fix x l
    assume x: "x \<in> set (p_orderItemsData p)" and l: "l \<in> set its"
      and h: "od_menu_id x = line_id l \<and> line_quantity l = Some (od_quantity x) \<and>
              od_subtotal x = of_int (od_price x) * od_quantity x \<and>
              (\<exists>m. find_menu (p_menuItems p) l = Some m \<and> od_price x = m_price m)"
    then obtain m where m: "find_menu (menu_findMany (menuIds its) d) l = Some m"
      "od_price x = m_price m"
      using ms by auto
    note fm = find_menu_findMany_set[OF m(1)]
    have qi: "isInteger (od_quantity x)" using oi x by (simp add: list_all_iff)
    have "line_id l = Some (oi_menu_id (to_order_item x))"
      using h fm by (auto simp: to_order_item_def) (metis option.sel)
    moreover have "line_quantity l = Some (of_int (oi_quantity (to_order_item x)))"
      using h qi by (simp add: to_order_item_def trunc_isInteger isInteger_floor)
    moreover have "oi_subtotal (to_order_item x) =
                     oi_price (to_order_item x) * oi_quantity (to_order_item x)"
      using h qi by (simp add: to_order_item_def trunc_isInteger floor_price_times[OF qi]
          isInteger_Ints)
    moreover have "list_ex (\<lambda>m. m_id m = oi_menu_id (to_order_item x) \<and> m_is_available m \<and>
                                  m_price m = oi_price (to_order_item x)) (menus d)"
      using h fm m(2) by (auto simp: list_ex_iff to_order_item_def) (metis option.sel)
    ultimately show "line_id l = Some (oi_menu_id (to_order_item x)) \<and>
                    line_quantity l = Some (of_int (oi_quantity (to_order_item x))) \<and>
                    oi_subtotal (to_order_item x) =
                      oi_price (to_order_item x) * oi_quantity (to_order_item x) \<and>
                    list_ex (\<lambda>m. m_id m = oi_menu_id (to_order_item x) \<and> m_is_available m \<and>
                                  m_price m = oi_price (to_order_item x)) (menus d)"
      by blast
  qed
  then have items_ok: "list_all2
           (\<lambda>oi l. line_id l = Some (oi_menu_id oi) \<and>
                    line_quantity l = Some (of_int (oi_quantity oi)) \<and>
                    oi_subtotal oi = oi_price oi * oi_quantity oi \<and>
                    list_ex (\<lambda>m. m_id m = oi_menu_id oi \<and> m_is_available m \<and>
                                  m_price m = oi_price oi) (menus d))
           (o_order_items ord) (the (items req))"
    by (simp add: c(2) its(1))
  have "orders d' = orders (other d) @ [ord]"
    using same decrement_stock_orders[OF dec] c(3) by simp
  then show ?thesis using total items_ok by blast
qed

section \<open>A cart with fractional quantities\<close>

text \<open>
  C2. The claim holds for carts with whole quantities (lemma \<open>integer_quantities_consistent\<close>),
  but the handler does not keep it: the check of the lines lets a quantity of 3/2 through, and
  the order is committed with its numbers cut to integers. With prices 25001 and 5001 and a
  quantity of 3/2 in both lines, the committed total is 45003 while the committed subtotals are
  37501 and 7501, which add up to 45002; and the first subtotal, 37501, is neither the price
  times the quantity of the line, 75003/2, nor the price times the committed quantity, 25001.
\<close>

theorem C2_fractional_quantity_committed:
  "map m_price (menus (raise_prices 1 scenario_db)) = [25001, 5001, 30001, 20001] \<and>
   fst (POST ''o1'' (Some ''u1'') (cart ''t1'' [line ''m1'' (3 / 2), line ''m2'' (3 / 2)])
          (raise_prices 1 scenario_db)) =
     (201, CSuccess
        \<lparr>o_id = ''o1'', o_customer_id = ''u1'', o_table_id = ''t1'',
         o_order_status = ''pending'', o_payment_status = ''pending'',
         o_total_amount = 45003,
         o_order_items =
           [\<lparr>oi_menu_id = ''m1'', oi_price = 25001, oi_quantity = 1, oi_subtotal = 37501,
             oi_customization = None\<rparr>,
            \<lparr>oi_menu_id = ''m2'', oi_price = 5001, oi_quantity = 1, oi_subtotal = 7501,
             oi_customization = None\<rparr>]\<rparr>) \<and>
   (45003 :: int) \<noteq> 37501 + 7501 \<and>
   (37501 :: rat) \<noteq> 25001 * (3 / 2) \<and> (37501 :: int) \<noteq> 25001 * 1"
  by (simp add: raise_prices_def scenario_eval checkout_eval)

section \<open>Stock never goes negative\<close>

lemma stock_nonneg_iff: "stock_nonneg d \<longleftrightarrow> (\<forall>m \<in> set (menus d). 0 \<le> m_stock m)"
  by (simp add: stock_nonneg_def list_all_iff)

lemma stock_nonneg_menus: "menus d' = menus d \<Longrightarrow> stock_nonneg d' = stock_nonneg d"
  by (simp add: stock_nonneg_def)

lemma parse_quantity_nonneg: "parse_quantity tn q = Inr n \<Longrightarrow> 0 \<le> n"
  by (cases "Number_of tn q") (auto simp: parse_quantity_def Let_def split: if_splits)

lemma schema_parse_nonneg:
  "stockUpdateSchema_parse tn body = Inr (act, n, r) \<Longrightarrow> 0 \<le> n"
  by (auto simp: stockUpdateSchema_parse_def dest: parse_quantity_nonneg split: sum.splits)

lemma newStock_nonneg: "0 \<le> s \<Longrightarrow> 0 \<le> q \<Longrightarrow> 0 \<le> newStock act s q"
  by (cases act) auto

lemma PUT_stock_nonneg:
  assumes "stock_nonneg d"
  shows "stock_nonneg (snd (PUT tn session i body d))"
proof (cases session)
  case None
  then show ?thesis using assms by (simp add: PUT_def)
next
  case (Some uid)
  show ?thesis
  proof (cases "stockUpdateSchema_parse tn body")
    case (Inl issues)
    show ?thesis
      using assms by (simp add: Some PUT_invalid[OF Inl] stock_nonneg_def menus_log_create)
  next
    case (Inr x)
    obtain act n r where x: "x = (act, n, r)" by (cases x) auto
    have n: "0 \<le> n" using Inr x schema_parse_nonneg by blast
    show ?thesis
    proof (cases "menu_findUnique i d")
      case None
      then show ?thesis using assms by (simp add: Some PUT_not_found[OF Inr])
    next
      case Some2: (Some m)
      have "m \<in> set (menus d)"
        using Some2 find_Some_set[of "\<lambda>m. m_id m = i" "menus d" m]
        by (simp add: menu_findUnique_def)
      then have "0 \<le> m_stock m" using assms by (simp add: stock_nonneg_iff)
      then have pos: "0 \<le> newStock act (m_stock m) n" using n by (rule newStock_nonneg)
      show ?thesis
      proof (cases "int4 (newStock act (m_stock m) n)")
        case True
        show ?thesis
          using assms pos Inr x
          by (auto simp: Some PUT_ok[OF Some2 _ True] stock_nonneg_iff menus_log_create
              m_stock_set_stock[OF True])
      next
        case False
        show ?thesis
          using assms Inr x
          by (simp add: Some PUT_refused[OF Some2 _ False] stock_nonneg_def menus_log_create)
      qed
    qed
  qed
qed

lemma orderItemsData_found:
  "orderItemsData acc ms its = Inr res \<Longrightarrow> l \<in> set its \<Longrightarrow>
   \<exists>m r. find_menu ms l = Some m \<and> line_quantity l = Some r"
proof (induction its arbitrary: acc res)
  case Nil then show ?case by simp
next
  case (Cons x xs)
  from Cons.prems(1) obtain m where m: "find_menu ms x = Some m"
    by (auto split: option.splits)
  from Cons.prems(1) m have q: "\<not> falsy_number (line_quantity x)"
    by (auto split: if_splits)
  then obtain r where r: "line_quantity x = Some r"
    by (cases "line_quantity x") (auto simp: falsy_number_def)
  from Cons.prems(1) m q obtain res' where
    rest: "orderItemsData (acc + of_int (m_price m) * r) ms xs = Inr res'"
    by (auto simp: r Let_def split: if_splits sum.splits prod.splits)
  show ?case
  proof (cases "l = x")
    case True then show ?thesis using m r by simp
  next
    case False
    then have "l \<in> set xs" using Cons.prems(2) by simp
    then show ?thesis using Cons.IH[OF rest] by simp
  qed
qed

lemma stockErrors_empty:
  "stockErrors ms ls = [] \<Longrightarrow> l \<in> set ls \<Longrightarrow> find_menu ms l = Some m \<Longrightarrow>
   \<not> stock_lt (m_stock m) (line_quantity l)"
  using stockErrors_nonempty by blast

lemma decrement_stock_nonneg:
  assumes "decrement_stock ls d = Inr d'" and "stock_nonneg d"
    and "distinct (map (\<lambda>l. the (line_id l)) ls)"
    and "\<forall>l \<in> set ls. \<forall>m \<in> set (menus d).
           m_id m = the (line_id l) \<longrightarrow> trunc (the (line_quantity l)) \<le> m_stock m"
  shows "stock_nonneg d'"
  using assms
proof (induction ls arbitrary: d)
  case Nil
  then show ?case by simp
next
  case (Cons l ls)
  let ?i = "the (line_id l)"
  let ?q = "trunc (the (line_quantity l))"
  from Cons.prems(1) obtain d1
    where u: "menu_decrement ?i (the (line_quantity l)) d = Inr d1"
    and r: "decrement_stock ls d1 = Inr d'"
    by (auto split: sum.splits)
  have m1: "menus d1 = map (\<lambda>m. if m_id m = ?i then set_stock (m_stock m - ?q) m else m) (menus d)"
    using menu_decrement_Inr(1)[OF u] by simp
  note fits = menu_decrement_Inr(2)[OF u]
  have nn: "stock_nonneg d1"
    using Cons.prems(2,4) fits by (auto simp: stock_nonneg_iff m1 m_stock_set_stock)
  have dist: "distinct (map (\<lambda>l. the (line_id l)) ls)" using Cons.prems(3) by simp
  have bound: "\<forall>l' \<in> set ls. \<forall>m \<in> set (menus d1).
                 m_id m = the (line_id l') \<longrightarrow> trunc (the (line_quantity l')) \<le> m_stock m"
  proof (intro ballI impI)
    fix l' m
    assume l': "l' \<in> set ls" and m: "m \<in> set (menus d1)" and eq: "m_id m = the (line_id l')"
    have ne: "the (line_id l') \<noteq> ?i"
      using Cons.prems(3) imageI[OF l', of "\<lambda>l. the (line_id l)"] by auto
    from m obtain m0 where m0: "m0 \<in> set (menus d)"
      and mm: "m = (if m_id m0 = ?i then set_stock (m_stock m0 - ?q) m0 else m0)"
      by (auto simp: m1)
    have "m_id m = m_id m0" using mm by (simp add: set_stock_same)
    then have "m = m0" using mm eq ne by simp
    then show "trunc (the (line_quantity l')) \<le> m_stock m"
      using Cons.prems(4) l' m0 eq by simp
  qed
  show ?case by (rule Cons.IH[OF r nn dist bound])
qed

lemma unique_row:
  assumes "menu_ids_unique d" and "m \<in> set (menus d)" and "m' \<in> set (menus d)"
    and "m_id m' = m_id m"
  shows "m' = m"
proof -
  have "inj_on m_id (set (menus d))"
    using assms(1) by (simp add: menu_ids_unique_def distinct_map)
  then show ?thesis using assms(2,3,4) by (meson inj_onD)
qed

lemma POST_stock_nonneg:
  assumes nn: "stock_nonneg d" and uniq: "menu_ids_unique d"
  shows "stock_nonneg (snd (POST oid session req d))"
proof (cases session)
  case None
  then show ?thesis using nn by (simp add: POST_def POST_between_def)
next
  case (Some uid)
  show ?thesis
  proof (cases "checkout_validate req d")
    case (Inl a)
    then show ?thesis
      using nn
      by (cases a)
         (simp_all add: Some POST_def POST_between_def checkout_catch_def stock_nonneg_def
            menus_log_create)
  next
    case (Inr p)
    show ?thesis
    proof (cases "checkout_transaction oid uid p d")
      case (Inl e)
      then show ?thesis
        using nn Inr
        by (simp add: Some POST_def POST_between_def checkout_catch_def stock_nonneg_def
            menus_log_create)
    next
      case tx: (Inr res)
      obtain ord d' where res: "res = (ord, d')" by (cases res) auto
      obtain its where its: "items req = Some its" "p_items p = its"
        and ms: "p_menuItems p = menu_findMany (menuIds its) d"
        and od: "orderItemsData 0 (p_menuItems p) its = Inr (p_totalAmount p, p_orderItemsData p)"
        and inv: "invalidItems its = []"
        and len: "length (menu_findMany (menuIds its) d) = length (menuIds its)"
        and se: "stockErrors (p_menuItems p) its = []"
        using validate_Inr[OF Inr] by blast
      obtain d1 d2 where oc: "order_create oid uid (t_id (p_table p)) (p_totalAmount p)
                                (p_orderItemsData p) d = Inr (ord, d1)"
        and dec: "decrement_stock its d1 = Inr d2" and same: "menus d' = menus d2"
        using transaction_Inr[of oid uid p d ord d'] tx res its(2) by auto
      have m1: "menus d1 = menus d" using order_create_Inr(3)[OF oc] by simp
      have nn1: "stock_nonneg d1" using nn m1 by (simp add: stock_nonneg_def)
      have wf: "list_all (\<lambda>l. \<not> malformed_line l) its"
        using inv by (simp add: invalidItems_eq filter_empty_conv list_all_iff)
      have ids: "menuIds its = map (\<lambda>l. the (line_id l)) its"
        by (rule menuIds_well_formed[OF wf])
      have dist: "distinct (map (\<lambda>l. the (line_id l)) its)"
        using duplicate_ids_fail[OF uniq, of "menuIds its"] len ids by auto
      have bound: "\<forall>l \<in> set its. \<forall>m \<in> set (menus d1).
                     m_id m = the (line_id l) \<longrightarrow> trunc (the (line_quantity l)) \<le> m_stock m"
      proof (intro ballI impI)
        fix l m'
        assume l: "l \<in> set its" and m': "m' \<in> set (menus d1)"
          and eq: "m_id m' = the (line_id l)"
        obtain m r where f: "find_menu (p_menuItems p) l = Some m"
          and q: "line_quantity l = Some r"
          using orderItemsData_found[OF od l] by blast
        have fm: "m \<in> set (menus d)" "Some (m_id m) = line_id l"
          using find_menu_findMany_set[of "menuIds its" d l m] f ms by simp_all
        have "m_id m' = m_id m" using eq fm(2) by (metis option.sel)
        then have "m' = m" using unique_row[OF uniq fm(1)] m' m1 by simp
        have "\<not> stock_lt (m_stock m) (line_quantity l)"
          by (rule stockErrors_empty[OF se l f])
        then have "r \<le> of_int (m_stock m)" by (simp add: stock_lt_def q)
        then have "trunc r \<le> m_stock m" by (rule trunc_le)
        then show "trunc (the (line_quantity l)) \<le> m_stock m'"
          using \<open>m' = m\<close> q by simp
      qed
      have "stock_nonneg d2" by (rule decrement_stock_nonneg[OF dec nn1 dist bound])
      then have "stock_nonneg d'" using same by (simp add: stock_nonneg_def)
      then show ?thesis
        using Inr tx res by (simp add: Some POST_def POST_between_def)
    qed
  qed
qed

text \<open>
  C3, as amended. From a store in which no stock is negative (and in which the identifier is
  the key of the menu table), one checkout request or one stock update, whatever its arguments
  and whether it succeeds or fails, leads to a store in which no stock is negative, provided
  that no other request writes the store between the reads of the checkout and its
  transaction.
\<close>

theorem C3_stock_never_negative:
  assumes "stock_nonneg d" and "menu_ids_unique d"
  shows "stock_nonneg (snd (POST oid session req d)) \<and>
         stock_nonneg (snd (PUT tn session' i body d))"
  using POST_stock_nonneg[OF assms] PUT_stock_nonneg[OF assms(1)] by blast

section \<open>Scenario A of the specification\<close>

lemma scenario_A_store:
  "snd (POST ''o1'' (Some ''u1'') (cart ''t1'' [line ''m1'' 3]) scenario_db) =
     scenario_db
       \<lparr>menus :=
          [\<lparr>m_id = ''m1'', m_name = ''Nasi Goreng'', m_price_col = 25000, m_stock_col = 7,
            m_is_available = True\<rparr>,
           \<lparr>m_id = ''m2'', m_name = ''Es Teh'', m_price_col = 5000, m_stock_col = 2,
            m_is_available = True\<rparr>,
           \<lparr>m_id = ''m3'', m_name = ''Sate'', m_price_col = 30000, m_stock_col = 8,
            m_is_available = True\<rparr>,
           \<lparr>m_id = ''m4'', m_name = ''Soto'', m_price_col = 20000, m_stock_col = 1,
            m_is_available = False\<rparr>],
        orders :=
          [\<lparr>o_id = ''o1'', o_customer_id = ''u1'', o_table_id = ''t1'',
            o_order_status = ''pending'', o_payment_status = ''pending'',
            o_total_amount = 75000,
            o_order_items =
              [\<lparr>oi_menu_id = ''m1'', oi_price = 25000, oi_quantity = 3, oi_subtotal = 75000,
                oi_customization = None\<rparr>]\<rparr>],
        logs :=
          [\<lparr>log_user_id = Some ''u1'', log_action = ''order_created'',
            log_message = OrderCreatedMsg ''O1'' ''Table 1'' 1 75000\<rparr>,
           \<lparr>log_user_id = Some ''u1'', log_action = ''stock_updated'',
            log_message = StockReducedMsg ''Nasi Goreng'' 3 ''O1''\<rparr>]\<rparr>"
  by (simp add: scenario_eval checkout_eval)

theorem C3_stock_never_negative_witness:
  "stock_nonneg scenario_db \<and> menu_ids_unique scenario_db \<and>
   stock_nonneg (snd (POST ''o1'' (Some ''u1'') (cart ''t1'' [line ''m1'' 3]) scenario_db)) \<and>
   stock_of ''m1'' (snd (POST ''o1'' (Some ''u1'') (cart ''t1'' [line ''m1'' 3]) scenario_db)) =
     Some 7 \<and>
   stock_nonneg
     (snd (PUT no_text (Some ''u1'') ''m3'' (stock_request ''subtract'' 20) scenario_db))"
proof -
  have n: "stock_nonneg scenario_db"
    by (simp add: stock_nonneg_def scenario_db_def m_stock_def)
  have s: "stock_of ''m1'' (snd (POST ''o1'' (Some ''u1'') (cart ''t1'' [line ''m1'' 3])
             scenario_db)) = Some 7"
    by (simp add: scenario_A_store stock_of_def menu_findUnique_def m_stock_def)
  show ?thesis
    using n scenario_unique s
      C3_stock_never_negative[OF n scenario_unique, of "''o1''" "Some ''u1''"
        "cart ''t1'' [line ''m1'' 3]" no_text "Some ''u1''" "''m3''"
        "stock_request ''subtract'' 20"]
    by blast
qed

text \<open>
  C3 as stated fails. A checkout reads a stock of 10 for a line of 3; before its transaction
  starts, an administrator sets that stock to 1; the transaction decrements it by 3 all the
  same, and the committed stock is -2. No stock is negative before the checkout, nor after
  the update of the administrator.
\<close>

lemma admin_sets_m1:
  "admin_sets_stock ''m1'' 1 scenario_db =
     scenario_db
       \<lparr>menus :=
          [\<lparr>m_id = ''m1'', m_name = ''Nasi Goreng'', m_price_col = 25000, m_stock_col = 1,
            m_is_available = True\<rparr>,
           \<lparr>m_id = ''m2'', m_name = ''Es Teh'', m_price_col = 5000, m_stock_col = 2,
            m_is_available = True\<rparr>,
           \<lparr>m_id = ''m3'', m_name = ''Sate'', m_price_col = 30000, m_stock_col = 8,
            m_is_available = True\<rparr>,
           \<lparr>m_id = ''m4'', m_name = ''Soto'', m_price_col = 20000, m_stock_col = 1,
            m_is_available = False\<rparr>],
        logs :=
          [\<lparr>log_user_id = Some ''admin'', log_action = ''stock_updated'',
            log_message = StockChangeMsg Set ''Nasi Goreng'' [] (- 9) 10 1 None\<rparr>]\<rparr>"
  by (simp add: admin_sets_stock_def PUT_def stock_request_def stockUpdateSchema_parse_def
      parse_action_def parse_quantity_def parse_reason_def Number_of_def isInteger_def
      stock_transaction_def menu_update_def menu_findUnique_def set_stock_def int4_def
      m_stock_def log_create_def scenario_db_def Let_def)

lemma scenario_A_plan:
  "checkout_validate (cart ''t1'' [line ''m1'' 3]) scenario_db =
     Inr \<lparr>p_table = \<lparr>t_id = ''t1'', t_name = ''Table 1'', t_desc = None\<rparr>,
          p_items = [line ''m1'' 3],
          p_menuItems =
            [\<lparr>m_id = ''m1'', m_name = ''Nasi Goreng'', m_price_col = 25000, m_stock_col = 10,
              m_is_available = True\<rparr>],
          p_totalAmount = 75000,
          p_orderItemsData =
            [\<lparr>od_menu_id = Some ''m1'', od_price = 25000, od_quantity = 3, od_subtotal = 75000,
              od_customization = None\<rparr>]\<rparr>"
  by (simp add: scenario_eval checkout_eval)

theorem C3_counterexample:
  "stock_nonneg scenario_db \<and> menu_ids_unique scenario_db \<and>
   stock_nonneg (admin_sets_stock ''m1'' 1 scenario_db) \<and>
   fst (fst (POST_between (admin_sets_stock ''m1'' 1) ''o1'' (Some ''u1'')
               (cart ''t1'' [line ''m1'' 3]) scenario_db)) = 201 \<and>
   stock_of ''m1'' (snd (POST_between (admin_sets_stock ''m1'' 1) ''o1'' (Some ''u1'')
               (cart ''t1'' [line ''m1'' 3]) scenario_db)) = Some (- 2) \<and>
   \<not> stock_nonneg (snd (POST_between (admin_sets_stock ''m1'' 1) ''o1'' (Some ''u1'')
               (cart ''t1'' [line ''m1'' 3]) scenario_db))"
  by (simp add: POST_between_def scenario_A_plan admin_sets_m1 scenario_unique)
     (simp add: scenario_eval checkout_eval stock_nonneg_def stock_of_def)

end
